theory Spec2Isabelle
  imports Complex_Main
begin

section \<open>The insertion-ordered collections of MemStorage\<close>

text \<open>
  Every collection of \<^verbatim>\<open>MemStorage\<close> (server/storage.ts) is a JavaScript
  \<^verbatim>\<open>Map<number, T>\<close>. Such a map iterates in insertion order;
  \<^verbatim>\<open>set\<close> on a key that is already present replaces the value and keeps the
  key's position, \<^verbatim>\<open>set\<close> on a new key appends. The model is an association list
  with exactly this behaviour. Identifiers are JavaScript numbers that the schema
  constrains to integers; they are modelled as \<open>int\<close>, timestamps as milliseconds
  since the epoch (what \<^verbatim>\<open>Date.getTime()\<close> returns).
\<close>

type_synonym 'a jsmap = "(int \<times> 'a) list"

definition map_get :: "'a jsmap \<Rightarrow> int \<Rightarrow> 'a option" where
  "map_get m k = map_of m k"

fun map_set :: "'a jsmap \<Rightarrow> int \<Rightarrow> 'a \<Rightarrow> 'a jsmap" where
  "map_set [] k v = [(k, v)]"
| "map_set ((k', v') # m) k v =
     (if k' = k then (k, v) # m else (k', v') # map_set m k v)"

definition map_values :: "'a jsmap \<Rightarrow> 'a list" where
  "map_values m = map snd m"

section \<open>Entities (shared/schema.ts)\<close>

text \<open>
  One record per table, with the fields the server code reads or writes. Text columns
  with a fixed set of values (role, status, type) stay strings, as in the source: the
  handlers compare them with string literals, and only the request validation restricts
  them. Nullable columns are options. Credential and contact columns of a user, which no
  modelled operation inspects, are left out.
\<close>

record user =
  user_id :: int
  username :: string
  fullName :: string
  role :: string
  isActive :: bool
  user_createdAt :: int

record insert_user =
  iu_username :: string
  iu_fullName :: string
  iu_role :: string
  iu_isActive :: "bool option"

record department =
  dept_id :: int
  dept_name :: string
  dept_code :: string
  dept_description :: "string option"

record insert_department =
  idp_name :: string
  idp_code :: string
  idp_description :: "string option"

record course =
  course_id :: int
  course_name :: string
  course_code :: string
  course_departmentId :: int
  course_studyLevelId :: int
  course_description :: "string option"

record insert_course =
  ic_name :: string
  ic_code :: string
  ic_departmentId :: int
  ic_studyLevelId :: int
  ic_description :: "string option"

record classIntake =
  intake_id :: int
  intake_name :: string
  intake_courseId :: int
  intake_startDate :: string
  intake_endDate :: string

record insert_classIntake =
  ici_name :: string
  ici_courseId :: int
  ici_startDate :: string
  ici_endDate :: string

record course_module =
  mod_id :: int
  mod_name :: string
  mod_code :: string
  mod_courseId :: int
  mod_description :: "string option"
  mod_credits :: int

record insert_module =
  im_name :: string
  im_code :: string
  im_courseId :: int
  im_description :: "string option"
  im_credits :: "int option"

text \<open>
  The assignments table of shared/schema.ts has no trainee column, yet the handlers and
  \<^verbatim>\<open>getAssignmentsByTrainee\<close> read \<^verbatim>\<open>assignment.traineeId\<close>, and
  \<^verbatim>\<open>createAssignment\<close> stores the request body as it came (the validation
  middleware discards the parsed value). So the property is present on a stored
  assignment exactly when the request carried it: an option, \<open>None\<close> for
  \<^verbatim>\<open>undefined\<close>, which is \<^verbatim>\<open>===\<close> to no number.
\<close>

record assignment =
  asg_id :: int
  asg_classIntakeId :: int
  asg_assessorId :: int
  asg_unitId :: int
  asg_traineeId :: "int option"
  asg_createdAt :: int

record insert_assignment =
  ia_classIntakeId :: int
  ia_assessorId :: int
  ia_unitId :: int
  ia_traineeId :: "int option"

record submission =
  sub_id :: int
  sub_traineeId :: int
  sub_taskId :: int
  sub_unitId :: int
  sub_title :: string
  sub_description :: "string option"
  sub_submissionDate :: int
  sub_status :: string

record insert_submission =
  is_traineeId :: int
  is_taskId :: int
  is_unitId :: int
  is_title :: string
  is_description :: "string option"
  is_status :: "string option"

record submissionFile =
  file_id :: int
  file_submissionId :: int
  file_fileName :: string
  file_fileType :: string
  file_filePath :: string
  file_fileSize :: int
  file_uploadDate :: int

record insert_submissionFile =
  if_submissionId :: int
  if_fileName :: string
  if_fileType :: string
  if_filePath :: string
  if_fileSize :: int

record assessment =
  as_id :: int
  as_submissionId :: int
  as_assessorId :: int
  as_feedback :: "string option"
  as_criteria :: "(string \<times> bool) list"
  as_status :: string
  as_assessmentDate :: int

record insert_assessment =
  ias_submissionId :: int
  ias_assessorId :: int
  ias_feedback :: "string option"
  ias_criteria :: "(string \<times> bool) list option"
  ias_status :: string

record verification =
  ver_id :: int
  ver_assessmentId :: int
  ver_verifierId :: int
  ver_verifierType :: string
  ver_status :: string
  ver_comments :: "string option"
  ver_verificationDate :: int

record insert_verification =
  iv_assessmentId :: int
  iv_verifierId :: int
  iv_verifierType :: string
  iv_status :: string
  iv_comments :: "string option"

record notification =
  notif_id :: int
  notif_userId :: int
  notif_title :: string
  notif_message :: string
  notif_isRead :: bool
  notif_createdAt :: int
  notif_type :: string
  notif_linkedItemId :: "int option"

record insert_notification =
  in_userId :: int
  in_title :: string
  in_message :: string
  in_isRead :: "bool option"
  in_type :: string
  in_linkedItemId :: "int option"

record activityLog =
  log_id :: int
  log_userId :: int
  log_action :: string
  log_details :: "(string \<times> int) list"
  log_timestamp :: int

record insert_activityLog =
  il_userId :: int
  il_action :: string
  il_details :: "(string \<times> int) list option"

section \<open>The store\<close>

text \<open>
  The collections of \<^verbatim>\<open>MemStorage\<close> with their identifier counters. Study
  levels, units and tasks are left out: the operations modelled here neither read nor
  write them.
\<close>

record store =
  usersMap :: "user jsmap"
  departmentsMap :: "department jsmap"
  coursesMap :: "course jsmap"
  classIntakesMap :: "classIntake jsmap"
  modulesMap :: "course_module jsmap"
  assignmentsMap :: "assignment jsmap"
  submissionsMap :: "submission jsmap"
  submissionFilesMap :: "submissionFile jsmap"
  assessmentsMap :: "assessment jsmap"
  verificationsMap :: "verification jsmap"
  notificationsMap :: "notification jsmap"
  activityLogsMap :: "activityLog jsmap"
  userIdCounter :: int
  departmentIdCounter :: int
  courseIdCounter :: int
  classIntakeIdCounter :: int
  moduleIdCounter :: int
  assignmentIdCounter :: int
  submissionIdCounter :: int
  submissionFileIdCounter :: int
  assessmentIdCounter :: int
  verificationIdCounter :: int
  notificationIdCounter :: int
  activityLogIdCounter :: int


text \<open>The constructor of \<^verbatim>\<open>MemStorage\<close>, before \<^verbatim>\<open>seedInitialData\<close> runs.\<close>

definition empty_store :: store where
  "empty_store =
     \<lparr>usersMap = [], departmentsMap = [], coursesMap = [], classIntakesMap = [],
      modulesMap = [], assignmentsMap = [], submissionsMap = [], submissionFilesMap = [],
      assessmentsMap = [], verificationsMap = [], notificationsMap = [],
      activityLogsMap = [],
      userIdCounter = 1, departmentIdCounter = 1, courseIdCounter = 1,
      classIntakeIdCounter = 1, moduleIdCounter = 1, assignmentIdCounter = 1,
      submissionIdCounter = 1, submissionFileIdCounter = 1, assessmentIdCounter = 1,
      verificationIdCounter = 1, notificationIdCounter = 1, activityLogIdCounter = 1\<rparr>"

section \<open>Storage operations (server/storage.ts)\<close>

text \<open>
  Each \<^verbatim>\<open>createX\<close> takes the next identifier from its counter, increments the
  counter, builds the record (identifier and timestamp assigned by the server, defaults
  filled in after the spread of the payload) and stores it under the identifier. The
  clock reading \<open>now\<close> stands for \<^verbatim>\<open>new Date()\<close>.
\<close>

subsection \<open>Users\<close>

definition getUser :: "store \<Rightarrow> int \<Rightarrow> user option" where
  "getUser s i = map_get (usersMap s) i"

definition createUser :: "insert_user \<Rightarrow> int \<Rightarrow> store \<Rightarrow> user \<times> store" where
  "createUser insertUser now s =
     (let i = userIdCounter s;
          u = \<lparr>user_id = i, username = iu_username insertUser,
               fullName = iu_fullName insertUser, role = iu_role insertUser,
               isActive = (case iu_isActive insertUser of None \<Rightarrow> True | Some b \<Rightarrow> b),
               user_createdAt = now\<rparr>
      in (u, s\<lparr>userIdCounter := i + 1, usersMap := map_set (usersMap s) i u\<rparr>))"

text \<open>
  \<^verbatim>\<open>updateX(id, data)\<close> throws when the identifier is absent (\<open>None\<close>) and
  otherwise stores \<^verbatim>\<open>{...old, ...data}\<close>. Every caller passes a complete record
  (a spread of the record it has just read, with one field changed), so the merge is the
  passed record.
\<close>

definition updateUser :: "int \<Rightarrow> user \<Rightarrow> store \<Rightarrow> (user \<times> store) option" where
  "updateUser i userData s =
     (case getUser s i of
        None \<Rightarrow> None
      | Some u \<Rightarrow> Some (userData, s\<lparr>usersMap := map_set (usersMap s) i userData\<rparr>))"

definition getUsersByRole :: "store \<Rightarrow> string \<Rightarrow> user list" where
  "getUsersByRole s r = filter (\<lambda>u. role u = r) (map_values (usersMap s))"

subsection \<open>Departments, courses, class intakes, modules\<close>

definition createDepartment :: "insert_department \<Rightarrow> store \<Rightarrow> department \<times> store" where
  "createDepartment insertDepartment s =
     (let i = departmentIdCounter s;
          d = \<lparr>dept_id = i, dept_name = idp_name insertDepartment,
               dept_code = idp_code insertDepartment,
               dept_description = idp_description insertDepartment\<rparr>
      in (d, s\<lparr>departmentIdCounter := i + 1,
               departmentsMap := map_set (departmentsMap s) i d\<rparr>))"

definition getDepartment :: "store \<Rightarrow> int \<Rightarrow> department option" where
  "getDepartment s i = map_get (departmentsMap s) i"

definition createCourse :: "insert_course \<Rightarrow> store \<Rightarrow> course \<times> store" where
  "createCourse insertCourse s =
     (let i = courseIdCounter s;
          c = \<lparr>course_id = i, course_name = ic_name insertCourse,
               course_code = ic_code insertCourse,
               course_departmentId = ic_departmentId insertCourse,
               course_studyLevelId = ic_studyLevelId insertCourse,
               course_description = ic_description insertCourse\<rparr>
      in (c, s\<lparr>courseIdCounter := i + 1, coursesMap := map_set (coursesMap s) i c\<rparr>))"

definition getCourse :: "store \<Rightarrow> int \<Rightarrow> course option" where
  "getCourse s i = map_get (coursesMap s) i"

definition getCoursesByDepartment :: "store \<Rightarrow> int \<Rightarrow> course list" where
  "getCoursesByDepartment s departmentId =
     filter (\<lambda>c. course_departmentId c = departmentId) (map_values (coursesMap s))"

definition createClassIntake :: "insert_classIntake \<Rightarrow> store \<Rightarrow> classIntake \<times> store" where
  "createClassIntake insertClassIntake s =
     (let i = classIntakeIdCounter s;
          c = \<lparr>intake_id = i, intake_name = ici_name insertClassIntake,
               intake_courseId = ici_courseId insertClassIntake,
               intake_startDate = ici_startDate insertClassIntake,
               intake_endDate = ici_endDate insertClassIntake\<rparr>
      in (c, s\<lparr>classIntakeIdCounter := i + 1,
               classIntakesMap := map_set (classIntakesMap s) i c\<rparr>))"

definition getClassIntakesByCourse :: "store \<Rightarrow> int \<Rightarrow> classIntake list" where
  "getClassIntakesByCourse s courseId =
     filter (\<lambda>c. intake_courseId c = courseId) (map_values (classIntakesMap s))"

definition createModule :: "insert_module \<Rightarrow> store \<Rightarrow> course_module \<times> store" where
  "createModule insertModule s =
     (let i = moduleIdCounter s;
          m = \<lparr>mod_id = i, mod_name = im_name insertModule, mod_code = im_code insertModule,
               mod_courseId = im_courseId insertModule,
               mod_description = im_description insertModule,
               mod_credits = (case im_credits insertModule of None \<Rightarrow> 0 | Some c \<Rightarrow> c)\<rparr>
      in (m, s\<lparr>moduleIdCounter := i + 1, modulesMap := map_set (modulesMap s) i m\<rparr>))"

definition getModulesByCourse :: "store \<Rightarrow> int \<Rightarrow> course_module list" where
  "getModulesByCourse s courseId =
     filter (\<lambda>m. mod_courseId m = courseId) (map_values (modulesMap s))"

subsection \<open>Assignments\<close>

definition createAssignment :: "insert_assignment \<Rightarrow> int \<Rightarrow> store \<Rightarrow> assignment \<times> store" where
  "createAssignment insertAssignment now s =
     (let i = assignmentIdCounter s;
          a = \<lparr>asg_id = i, asg_classIntakeId = ia_classIntakeId insertAssignment,
               asg_assessorId = ia_assessorId insertAssignment,
               asg_unitId = ia_unitId insertAssignment,
               asg_traineeId = ia_traineeId insertAssignment, asg_createdAt = now\<rparr>
      in (a, s\<lparr>assignmentIdCounter := i + 1,
               assignmentsMap := map_set (assignmentsMap s) i a\<rparr>))"

definition getAssignmentsByTrainee :: "store \<Rightarrow> int \<Rightarrow> assignment list" where
  "getAssignmentsByTrainee s traineeId =
     filter (\<lambda>a. asg_traineeId a = Some traineeId) (map_values (assignmentsMap s))"

definition getAssignmentsByAssessor :: "store \<Rightarrow> int \<Rightarrow> assignment list" where
  "getAssignmentsByAssessor s assessorId =
     filter (\<lambda>a. asg_assessorId a = assessorId) (map_values (assignmentsMap s))"

subsection \<open>Submissions and their files\<close>

text \<open>
  \<^verbatim>\<open>status: insertSubmission.status || 'pending'\<close>: an absent status and the empty
  string are both falsy.
\<close>

definition createSubmission :: "insert_submission \<Rightarrow> int \<Rightarrow> store \<Rightarrow> submission \<times> store" where
  "createSubmission insertSubmission now s =
     (let i = submissionIdCounter s;
          sub = \<lparr>sub_id = i, sub_traineeId = is_traineeId insertSubmission,
                 sub_taskId = is_taskId insertSubmission,
                 sub_unitId = is_unitId insertSubmission,
                 sub_title = is_title insertSubmission,
                 sub_description = is_description insertSubmission,
                 sub_submissionDate = now,
                 sub_status = (case is_status insertSubmission of
                                 None \<Rightarrow> ''pending''
                               | Some st \<Rightarrow> if st = [] then ''pending'' else st)\<rparr>
      in (sub, s\<lparr>submissionIdCounter := i + 1,
                 submissionsMap := map_set (submissionsMap s) i sub\<rparr>))"

definition getSubmission :: "store \<Rightarrow> int \<Rightarrow> submission option" where
  "getSubmission s i = map_get (submissionsMap s) i"

definition updateSubmission :: "int \<Rightarrow> submission \<Rightarrow> store \<Rightarrow> (submission \<times> store) option" where
  "updateSubmission i submissionData s =
     (case getSubmission s i of
        None \<Rightarrow> None
      | Some sub \<Rightarrow>
          Some (submissionData,
                s\<lparr>submissionsMap := map_set (submissionsMap s) i submissionData\<rparr>))"

definition getAllSubmissions :: "store \<Rightarrow> submission list" where
  "getAllSubmissions s = map_values (submissionsMap s)"


definition createSubmissionFile ::
  "insert_submissionFile \<Rightarrow> int \<Rightarrow> store \<Rightarrow> submissionFile \<times> store" where
  "createSubmissionFile insertFile now s =
     (let i = submissionFileIdCounter s;
          f = \<lparr>file_id = i, file_submissionId = if_submissionId insertFile,
               file_fileName = if_fileName insertFile, file_fileType = if_fileType insertFile,
               file_filePath = if_filePath insertFile, file_fileSize = if_fileSize insertFile,
               file_uploadDate = now\<rparr>
      in (f, s\<lparr>submissionFileIdCounter := i + 1,
               submissionFilesMap := map_set (submissionFilesMap s) i f\<rparr>))"

definition getSubmissionFiles :: "store \<Rightarrow> int \<Rightarrow> submissionFile list" where
  "getSubmissionFiles s submissionId =
     filter (\<lambda>f. file_submissionId f = submissionId) (map_values (submissionFilesMap s))"

subsection \<open>Assessments and verifications\<close>

definition createAssessment :: "insert_assessment \<Rightarrow> int \<Rightarrow> store \<Rightarrow> assessment \<times> store" where
  "createAssessment insertAssessment now s =
     (let i = assessmentIdCounter s;
          a = \<lparr>as_id = i, as_submissionId = ias_submissionId insertAssessment,
               as_assessorId = ias_assessorId insertAssessment,
               as_feedback = ias_feedback insertAssessment,
               as_criteria = (case ias_criteria insertAssessment of None \<Rightarrow> [] | Some c \<Rightarrow> c),
               as_status = ias_status insertAssessment, as_assessmentDate = now\<rparr>
      in (a, s\<lparr>assessmentIdCounter := i + 1,
               assessmentsMap := map_set (assessmentsMap s) i a\<rparr>))"

definition getAssessment :: "store \<Rightarrow> int \<Rightarrow> assessment option" where
  "getAssessment s i = map_get (assessmentsMap s) i"

definition getAssessmentsBySubmission :: "store \<Rightarrow> int \<Rightarrow> assessment list" where
  "getAssessmentsBySubmission s submissionId =
     filter (\<lambda>a. as_submissionId a = submissionId) (map_values (assessmentsMap s))"

definition createVerification ::
  "insert_verification \<Rightarrow> int \<Rightarrow> store \<Rightarrow> verification \<times> store" where
  "createVerification insertVerification now s =
     (let i = verificationIdCounter s;
          v = \<lparr>ver_id = i, ver_assessmentId = iv_assessmentId insertVerification,
               ver_verifierId = iv_verifierId insertVerification,
               ver_verifierType = iv_verifierType insertVerification,
               ver_status = iv_status insertVerification,
               ver_comments = iv_comments insertVerification,
               ver_verificationDate = now\<rparr>
      in (v, s\<lparr>verificationIdCounter := i + 1,
               verificationsMap := map_set (verificationsMap s) i v\<rparr>))"

subsection \<open>Notifications and the activity log\<close>

text \<open>
  \<^verbatim>\<open>createNotification\<close> writes \<^verbatim>\<open>isRead: false\<close> after the spread of the
  payload, so the payload's own \<^verbatim>\<open>isRead\<close> is overwritten.
\<close>

definition createNotification ::
  "insert_notification \<Rightarrow> int \<Rightarrow> store \<Rightarrow> notification \<times> store" where
  "createNotification insertNotification now s =
     (let i = notificationIdCounter s;
          n = \<lparr>notif_id = i, notif_userId = in_userId insertNotification,
               notif_title = in_title insertNotification,
               notif_message = in_message insertNotification,
               notif_isRead = False, notif_createdAt = now,
               notif_type = in_type insertNotification,
               notif_linkedItemId = in_linkedItemId insertNotification\<rparr>
      in (n, s\<lparr>notificationIdCounter := i + 1,
               notificationsMap := map_set (notificationsMap s) i n\<rparr>))"

definition getNotification :: "store \<Rightarrow> int \<Rightarrow> notification option" where
  "getNotification s i = map_get (notificationsMap s) i"

definition updateNotification ::
  "int \<Rightarrow> notification \<Rightarrow> store \<Rightarrow> (notification \<times> store) option" where
  "updateNotification i notificationData s =
     (case getNotification s i of
        None \<Rightarrow> None
      | Some n \<Rightarrow>
          Some (notificationData,
                s\<lparr>notificationsMap := map_set (notificationsMap s) i notificationData\<rparr>))"

definition createActivityLog :: "insert_activityLog \<Rightarrow> int \<Rightarrow> store \<Rightarrow> activityLog \<times> store" where
  "createActivityLog insertLog now s =
     (let i = activityLogIdCounter s;
          l = \<lparr>log_id = i, log_userId = il_userId insertLog, log_action = il_action insertLog,
               log_details = (case il_details insertLog of None \<Rightarrow> [] | Some d \<Rightarrow> d),
               log_timestamp = now\<rparr>
      in (l, s\<lparr>activityLogIdCounter := i + 1,
               activityLogsMap := map_set (activityLogsMap s) i l\<rparr>))"


section \<open>Request handling (server/routes.ts)\<close>

text \<open>
  A handler takes the clock, the session's user (\<^verbatim>\<open>req.user\<close>, \<open>None\<close> when the
  request is not authenticated), the request's payload and the store, and returns the
  response with the store it leaves behind. Requests run one at a time, each to
  completion. The responses are the status codes the handlers send.
\<close>

datatype upload_error = LIMIT_UNEXPECTED_FILE | INVALID_FILE_TYPE | LIMIT_FILE_SIZE

datatype 'a response =
    Created 'a        \<comment> \<open>201\<close>
  | Ok                \<comment> \<open>200\<close>
  | BadRequest        \<comment> \<open>400\<close>
  | Unauthorized      \<comment> \<open>401\<close>
  | Forbidden         \<comment> \<open>403\<close>
  | NotFound          \<comment> \<open>404\<close>
  | InternalError     \<comment> \<open>500\<close>
  | UploadError upload_error

text \<open>
  A JSON body either has the shape of the insert type (every required field present,
  with the right type) or not; \<^verbatim>\<open>validateSchema\<close> answers 400 to the latter and
  goes on to check the enumerated text fields of the former.
\<close>

datatype 'a body = IllTyped | WellTyped 'a

text \<open>
  \<^verbatim>\<open>requireAuth\<close> answers 401 to a request without a session user: the
  \<open>None\<close> case of every handler below. \<^verbatim>\<open>requireRole\<close> answers 403 unless
  the user's role is one of the listed ones.
\<close>

definition requireRole :: "string list \<Rightarrow> user option \<Rightarrow> bool" where
  "requireRole roles usr = (case usr of None \<Rightarrow> False | Some u \<Rightarrow> role u \<in> set roles)"

definition insertAssignmentSchema :: "insert_assignment \<Rightarrow> bool" where
  "insertAssignmentSchema b = True"

definition insertSubmissionSchema :: "insert_submission \<Rightarrow> bool" where
  "insertSubmissionSchema b =
     (case is_status b of
        None \<Rightarrow> True
      | Some st \<Rightarrow> st \<in> set [''pending'', ''reviewed'', ''resubmit'', ''approved'', ''rejected''])"

definition insertAssessmentSchema :: "insert_assessment \<Rightarrow> bool" where
  "insertAssessmentSchema b = (ias_status b \<in> set [''approved'', ''resubmit'', ''rejected''])"

definition insertVerificationSchema :: "insert_verification \<Rightarrow> bool" where
  "insertVerificationSchema b =
     (iv_verifierType b \<in> set [''internal'', ''external''] \<and>
      iv_status b \<in> set [''confirmed'', ''rejected'', ''flagged''])"

text \<open>
  \<^verbatim>\<open>logActivity\<close> is called without \<^verbatim>\<open>await\<close>, but
  \<^verbatim>\<open>createActivityLog\<close> has no suspension point of its own, so the entry is
  written before the handler goes on. The origin address is left out.
\<close>

definition logActivity :: "int \<Rightarrow> string \<Rightarrow> (string \<times> int) list \<Rightarrow> int \<Rightarrow> store \<Rightarrow> store" where
  "logActivity userId action details now s =
     snd (createActivityLog
            \<lparr>il_userId = userId, il_action = action, il_details = Some details\<rparr> now s)"

subsection \<open>POST /api/users/deactivate/:id\<close>

definition post_users_deactivate :: "int \<Rightarrow> user option \<Rightarrow> int \<Rightarrow> store \<Rightarrow> unit response \<times> store" where
  "post_users_deactivate now usr userId s =
     (case usr of
        None \<Rightarrow> (Unauthorized, s)
      | Some actor \<Rightarrow>
          (if \<not> requireRole [''admin''] usr then (Forbidden, s)
           else (case getUser s userId of
                   None \<Rightarrow> (NotFound, s)
                 | Some u \<Rightarrow>
                     (case updateUser userId (u\<lparr>isActive := False\<rparr>) s of
                        None \<Rightarrow> (InternalError, s)
                      | Some (_, s1) \<Rightarrow>
                          (Ok, logActivity (user_id actor) ''deactivated_user''
                                 [(''targetUser'', userId)] now s1)))))"

subsection \<open>POST /api/assignments\<close>

text \<open>The unit number that the source appends to the message text is left out.\<close>

definition assignments_handler ::
  "int \<Rightarrow> user \<Rightarrow> insert_assignment \<Rightarrow> store \<Rightarrow> assignment response \<times> store" where
  "assignments_handler now actor b s =
     (let (assignment, s1) = createAssignment b now s;
          s2 = snd (createNotification
                 \<lparr>in_userId = asg_assessorId assignment,
                  in_title = ''New Trainee Assigned'',
                  in_message = ''You have been assigned to a new trainee for Unit '',
                  in_isRead = Some False, in_type = ''system'',
                  in_linkedItemId = Some (asg_id assignment)\<rparr> now s1);
          s3 = logActivity (user_id actor) ''created_assignment''
                 [(''assignmentId'', asg_id assignment)] now s2
      in (Created assignment, s3))"

definition post_assignments ::
  "int \<Rightarrow> user option \<Rightarrow> insert_assignment body \<Rightarrow> store \<Rightarrow> assignment response \<times> store" where
  "post_assignments now usr reqBody s =
     (case usr of
        None \<Rightarrow> (Unauthorized, s)
      | Some actor \<Rightarrow>
          (if \<not> requireRole [''admin''] usr then (Forbidden, s)
           else (case reqBody of
                   IllTyped \<Rightarrow> (BadRequest, s)
                 | WellTyped b \<Rightarrow>
                     (if \<not> insertAssignmentSchema b then (BadRequest, s)
                      else assignments_handler now actor b s))))"

subsection \<open>POST /api/submissions\<close>

text \<open>
  The upload middleware is \<^verbatim>\<open>multer({storage, fileFilter, limits: {fileSize: 20 * 1024 * 1024}})\<close>,
  used as \<^verbatim>\<open>upload.array('files', 10)\<close>. The filter and the two numbers are in
  routes.ts; the library that applies them is not part of the repository.
\<close>

record upload_file =
  originalname :: string
  mimetype :: string
  path :: string
  size :: int

definition allowedTypes :: "string list" where
  "allowedTypes =
     [''application/pdf'', ''image/jpeg'', ''image/png'', ''video/mp4'',
      ''application/vnd.openxmlformats-officedocument.wordprocessingml.document'']"

definition fileFilter :: "upload_file \<Rightarrow> bool" where
  "fileFilter file = (mimetype file \<in> set allowedTypes)"

definition fileSize_limit :: int where
  "fileSize_limit = 20 * 1024 * 1024"

definition maxCount :: nat where
  "maxCount = 10"

text \<open>
  Modelled from the spec: what the multer library does with this configuration; the
  library is not among the repository's sources. The spec's file intake rejects an
  upload whose classification is outside the allow-list or whose size exceeds 20 MiB,
  with an error identifying the offending constraint, before the core runs. The files of the form field \<^verbatim>\<open>files\<close> are taken in the order they
  arrive: a file beyond the count given to \<^verbatim>\<open>upload.array\<close> is an unexpected
  file, then \<^verbatim>\<open>fileFilter\<close> decides, then the size limit; the first failure
  ends the request with that error and the route's handler is not called.
\<close>

fun upload_scan :: "nat \<Rightarrow> upload_file list \<Rightarrow> upload_error option" where
  "upload_scan filesLeft [] = None"
| "upload_scan filesLeft (file # files) =
     (if filesLeft = 0 then Some LIMIT_UNEXPECTED_FILE
      else if \<not> fileFilter file then Some INVALID_FILE_TYPE
      else if size file > fileSize_limit then Some LIMIT_FILE_SIZE
      else upload_scan (filesLeft - 1) files)"

definition upload_array :: "upload_file list \<Rightarrow> upload_error option" where
  "upload_array files = upload_scan maxCount files"

text \<open>
  The form field \<^verbatim>\<open>submissionData\<close> is a string: \<^verbatim>\<open>JSON.parse\<close> throws on
  it (answer 500, from the outer \<^verbatim>\<open>catch\<close>) or yields a value that the schema
  check then accepts or rejects (answer 400).
\<close>

datatype 'a form_field = NotJSON | Json "'a body"

definition attach_files :: "int \<Rightarrow> int \<Rightarrow> upload_file list \<Rightarrow> store \<Rightarrow> store" where
  "attach_files now submissionId files s =
     fold (\<lambda>file st. snd (createSubmissionFile
                            \<lparr>if_submissionId = submissionId, if_fileName = originalname file,
                             if_fileType = mimetype file, if_filePath = path file,
                             if_fileSize = size file\<rparr> now st)) files s"

definition notify_assessor :: "int \<Rightarrow> int \<Rightarrow> submission \<Rightarrow> store \<Rightarrow> store" where
  "notify_assessor now traineeId submission s =
     (case find (\<lambda>a. asg_unitId a = sub_unitId submission)
                (getAssignmentsByTrainee s traineeId) of
        None \<Rightarrow> s
      | Some assignment \<Rightarrow>
          snd (createNotification
                 \<lparr>in_userId = asg_assessorId assignment,
                  in_title = ''New Submission Received'',
                  in_message = ''A new submission for '' @ sub_title submission
                    @ '' has been received and requires your review'',
                  in_isRead = Some False, in_type = ''submission'',
                  in_linkedItemId = Some (sub_id submission)\<rparr> now s))"

definition submissions_create ::
  "int \<Rightarrow> user \<Rightarrow> insert_submission \<Rightarrow> upload_file list \<Rightarrow> store \<Rightarrow>
   (submission \<times> submissionFile list) response \<times> store" where
  "submissions_create now actor d files s =
     (let (submission, s1) =
            createSubmission (d\<lparr>is_traineeId := user_id actor,
                                is_status := Some ''pending''\<rparr>) now s;
          s2 = attach_files now (sub_id submission) files s1;
          s3 = notify_assessor now (user_id actor) submission s2;
          s4 = logActivity (user_id actor) ''created_submission''
                 [(''submissionId'', sub_id submission)] now s3
      in (Created (submission, getSubmissionFiles s4 (sub_id submission)), s4))"

definition submissions_handler ::
  "int \<Rightarrow> user \<Rightarrow> insert_submission form_field \<Rightarrow> upload_file list \<Rightarrow> store \<Rightarrow>
   (submission \<times> submissionFile list) response \<times> store" where
  "submissions_handler now actor submissionData files s =
     (case submissionData of
        NotJSON \<Rightarrow> (InternalError, s)
      | Json IllTyped \<Rightarrow> (BadRequest, s)
      | Json (WellTyped d) \<Rightarrow>
          (if \<not> insertSubmissionSchema (d\<lparr>is_traineeId := user_id actor\<rparr>)
           then (BadRequest, s)
           else submissions_create now actor d files s))"

definition post_submissions ::
  "int \<Rightarrow> user option \<Rightarrow> insert_submission form_field \<Rightarrow> upload_file list \<Rightarrow> store \<Rightarrow>
   (submission \<times> submissionFile list) response \<times> store" where
  "post_submissions now usr submissionData files s =
     (case usr of
        None \<Rightarrow> (Unauthorized, s)
      | Some actor \<Rightarrow>
          (if \<not> requireRole [''trainee''] usr then (Forbidden, s)
           else (case upload_array files of
                   Some err \<Rightarrow> (UploadError err, s)
                 | None \<Rightarrow> submissions_handler now actor submissionData files s)))"

subsection \<open>POST /api/assessments\<close>

definition notify_each :: "int \<Rightarrow> (user \<Rightarrow> insert_notification) \<Rightarrow> user list \<Rightarrow> store \<Rightarrow> store" where
  "notify_each now payload verifiers s =
     fold (\<lambda>verifier st. snd (createNotification (payload verifier) now st)) verifiers s"

definition assessment_notifications :: "int \<Rightarrow> insert_assessment \<Rightarrow> submission \<Rightarrow> assessment \<Rightarrow> store \<Rightarrow> store" where
  "assessment_notifications now b submission assessment s =
     (let s1 = snd (createNotification
                 \<lparr>in_userId = sub_traineeId submission,
                  in_title = ''Assessment Feedback Available'',
                  in_message = ''Your submission for '' @ sub_title submission
                    @ '' has been assessed'',
                  in_isRead = Some False, in_type = ''assessment'',
                  in_linkedItemId = Some (as_id assessment)\<rparr> now s)
      in if ias_status b = ''approved''
         then notify_each now
                (\<lambda>verifier.
                   \<lparr>in_userId = user_id verifier,
                    in_title = ''Verification Required'',
                    in_message = ''A new assessment needs verification'',
                    in_isRead = Some False, in_type = ''verification'',
                    in_linkedItemId = Some (as_id assessment)\<rparr>)
                (getUsersByRole s1 ''internal_verifier'') s1
         else s1)"

definition assessments_create ::
  "int \<Rightarrow> user \<Rightarrow> insert_assessment \<Rightarrow> submission \<Rightarrow> store \<Rightarrow> assessment response \<times> store" where
  "assessments_create now actor b submission s =
     (let (assessment, s1) = createAssessment (b\<lparr>ias_assessorId := user_id actor\<rparr>) now s
      in (case updateSubmission (ias_submissionId b)
                 (submission\<lparr>sub_status :=
                    (if ias_status b = ''approved'' then ''approved''
                     else if ias_status b = ''rejected'' then ''rejected''
                     else ''resubmit'')\<rparr>) s1 of
            None \<Rightarrow> (InternalError, s1)
          | Some (_, s2) \<Rightarrow>
              (let s3 = assessment_notifications now b submission assessment s2;
                   s4 = logActivity (user_id actor) ''created_assessment''
                          [(''assessmentId'', as_id assessment)] now s3
               in (Created assessment, s4))))"

definition assessments_handler ::
  "int \<Rightarrow> user \<Rightarrow> insert_assessment \<Rightarrow> store \<Rightarrow> assessment response \<times> store" where
  "assessments_handler now actor b s =
     (case getSubmission s (ias_submissionId b) of
        None \<Rightarrow> (NotFound, s)
      | Some submission \<Rightarrow>
          (let assignments = getAssignmentsByAssessor s (user_id actor);
               isAssigned = list_ex (\<lambda>a. asg_traineeId a = Some (sub_traineeId submission)
                                         \<and> asg_unitId a = sub_unitId submission) assignments
           in if \<not> isAssigned then (Forbidden, s)
              else assessments_create now actor b submission s))"

definition post_assessments ::
  "int \<Rightarrow> user option \<Rightarrow> insert_assessment body \<Rightarrow> store \<Rightarrow> assessment response \<times> store" where
  "post_assessments now usr reqBody s =
     (case usr of
        None \<Rightarrow> (Unauthorized, s)
      | Some actor \<Rightarrow>
          (if \<not> requireRole [''assessor''] usr then (Forbidden, s)
           else (case reqBody of
                   IllTyped \<Rightarrow> (BadRequest, s)
                 | WellTyped b \<Rightarrow>
                     (if \<not> insertAssessmentSchema b then (BadRequest, s)
                      else assessments_handler now actor b s))))"

subsection \<open>POST /api/verifications\<close>

definition verification_notifications ::
  "int \<Rightarrow> user \<Rightarrow> insert_verification \<Rightarrow> assessment \<Rightarrow> submission \<Rightarrow> verification \<Rightarrow> store \<Rightarrow> store" where
  "verification_notifications now actor b assessment submission verification s =
     (let s1 = snd (createNotification
                 \<lparr>in_userId = as_assessorId assessment,
                  in_title = ''Verification Completed'',
                  in_message = ''Your assessment has been verified'',
                  in_isRead = Some False, in_type = ''verification'',
                  in_linkedItemId = Some (ver_id verification)\<rparr> now s);
          s2 = (if iv_status b = ''rejected''
                then snd (createNotification
                       \<lparr>in_userId = sub_traineeId submission,
                        in_title = ''Assessment Verification Issue'',
                        in_message = ''There was an issue with your assessment verification'',
                        in_isRead = Some False, in_type = ''verification'',
                        in_linkedItemId = Some (ver_id verification)\<rparr> now s1)
                else s1)
      in if iv_status b = ''confirmed'' \<and> role actor = ''internal_verifier''
         then notify_each now
                (\<lambda>verifier.
                   \<lparr>in_userId = user_id verifier,
                    in_title = ''External Verification Required'',
                    in_message = ''An assessment is ready for external verification'',
                    in_isRead = Some False, in_type = ''verification'',
                    in_linkedItemId = Some (ver_id verification)\<rparr>)
                (getUsersByRole s2 ''external_verifier'') s2
         else s2)"

text \<open>
  The handler stores the verification first and looks the assessment up afterwards; both
  404 answers leave with the store that already holds the new record.
\<close>

definition verifications_handler ::
  "int \<Rightarrow> user \<Rightarrow> insert_verification \<Rightarrow> store \<Rightarrow> verification response \<times> store" where
  "verifications_handler now actor b s =
     (let (verification, s1) =
            createVerification
              (b\<lparr>iv_verifierId := user_id actor,
                 iv_verifierType := (if role actor = ''internal_verifier''
                                     then ''internal'' else ''external'')\<rparr>) now s
      in (case getAssessment s1 (iv_assessmentId b) of
            None \<Rightarrow> (NotFound, s1)
          | Some assessment \<Rightarrow>
              (case getSubmission s1 (as_submissionId assessment) of
                 None \<Rightarrow> (NotFound, s1)
               | Some submission \<Rightarrow>
                   (let s2 = verification_notifications now actor b assessment submission
                               verification s1;
                        s3 = logActivity (user_id actor) ''created_verification''
                               [(''verificationId'', ver_id verification)] now s2
                    in (Created verification, s3)))))"

definition post_verifications ::
  "int \<Rightarrow> user option \<Rightarrow> insert_verification body \<Rightarrow> store \<Rightarrow> verification response \<times> store" where
  "post_verifications now usr reqBody s =
     (case usr of
        None \<Rightarrow> (Unauthorized, s)
      | Some actor \<Rightarrow>
          (if \<not> requireRole [''internal_verifier'', ''external_verifier''] usr
           then (Forbidden, s)
           else (case reqBody of
                   IllTyped \<Rightarrow> (BadRequest, s)
                 | WellTyped b \<Rightarrow>
                     (if \<not> insertVerificationSchema b then (BadRequest, s)
                      else verifications_handler now actor b s))))"

subsection \<open>POST /api/notifications/:id/read\<close>

definition post_notifications_read ::
  "user option \<Rightarrow> int \<Rightarrow> store \<Rightarrow> unit response \<times> store" where
  "post_notifications_read usr notificationId s =
     (case usr of
        None \<Rightarrow> (Unauthorized, s)
      | Some actor \<Rightarrow>
          (case getNotification s notificationId of
             None \<Rightarrow> (NotFound, s)
           | Some notification \<Rightarrow>
               (if notif_userId notification \<noteq> user_id actor then (Forbidden, s)
                else (case updateNotification notificationId
                             (notification\<lparr>notif_isRead := True\<rparr>) s of
                        None \<Rightarrow> (InternalError, s)
                      | Some (_, s1) \<Rightarrow> (Ok, s1)))))"


section \<open>The trainee-performance report (server/storage.ts)\<close>










section \<open>Runs of the system\<close>

text \<open>
  What can change the store: the mutating routes of routes.ts, and the storage calls
  made outside them (the seeding at start-up and the registration of users, which live
  in the store's \<^verbatim>\<open>seedInitialData\<close> and in the authentication module). The
  routes that create units and tasks and the portfolio export write, of the collections
  modelled here, only an activity-log entry; \<open>Log_only\<close> stands for them and lets any
  authenticated user write any entry.
\<close>

datatype request =
    Post_users_deactivate int
  | Post_assignments "insert_assignment body"
  | Post_submissions "insert_submission form_field" "upload_file list"
  | Post_assessments "insert_assessment body"
  | Post_verifications "insert_verification body"
  | Post_notifications_read int
  | Log_only string "(string \<times> int) list"

datatype action =
    Http "user option" request
  | Store_createUser insert_user
  | Store_createDepartment insert_department
  | Store_createCourse insert_course
  | Store_createClassIntake insert_classIntake
  | Store_createModule insert_module

fun handle :: "int \<Rightarrow> user option \<Rightarrow> request \<Rightarrow> store \<Rightarrow> store" where
  "handle now usr (Post_users_deactivate userId) s = snd (post_users_deactivate now usr userId s)"
| "handle now usr (Post_assignments b) s = snd (post_assignments now usr b s)"
| "handle now usr (Post_submissions d files) s = snd (post_submissions now usr d files s)"
| "handle now usr (Post_assessments b) s = snd (post_assessments now usr b s)"
| "handle now usr (Post_verifications b) s = snd (post_verifications now usr b s)"
| "handle now usr (Post_notifications_read notificationId) s =
     snd (post_notifications_read usr notificationId s)"
| "handle now usr (Log_only act details) s =
     (case usr of None \<Rightarrow> s | Some actor \<Rightarrow> logActivity (user_id actor) act details now s)"

fun step :: "int \<Rightarrow> action \<Rightarrow> store \<Rightarrow> store" where
  "step now (Http usr r) s = handle now usr r s"
| "step now (Store_createUser p) s = snd (createUser p now s)"
| "step now (Store_createDepartment p) s = snd (createDepartment p s)"
| "step now (Store_createCourse p) s = snd (createCourse p s)"
| "step now (Store_createClassIntake p) s = snd (createClassIntake p s)"
| "step now (Store_createModule p) s = snd (createModule p s)"

inductive reachable :: "store \<Rightarrow> bool" where
  initial: "reachable empty_store"
| after: "reachable s \<Longrightarrow> reachable (step now a s)"


section \<open>Invariants of the store\<close>

text \<open>
  Identifiers come from counters that only grow, so in every collection the keys are in
  ascending order, each record carries its key as identifier, and the counter is above
  all of them. The submission an assessment or a file refers to was created before it.
  \<open>latest_status\<close> follows the spec's wording: the status of the last assessment
  created for a submission, \<^verbatim>\<open>pending\<close> when there is none.
\<close>

definition ids_ok :: "('a \<Rightarrow> int) \<Rightarrow> 'a jsmap \<Rightarrow> int \<Rightarrow> bool" where
  "ids_ok idf m c = (sorted_wrt (<) (map fst m) \<and> (\<forall>(k, v) \<in> set m. idf v = k \<and> k < c))"

definition latest_status :: "store \<Rightarrow> int \<Rightarrow> string" where
  "latest_status s submissionId =
     (case getAssessmentsBySubmission s submissionId of
        [] \<Rightarrow> ''pending''
      | as \<Rightarrow> as_status (last as))"

definition refs_inv :: "store \<Rightarrow> bool" where
  "refs_inv s =
     (ids_ok sub_id (submissionsMap s) (submissionIdCounter s) \<and>
      ids_ok as_id (assessmentsMap s) (assessmentIdCounter s) \<and>
      ids_ok file_id (submissionFilesMap s) (submissionFileIdCounter s) \<and>
      ids_ok notif_id (notificationsMap s) (notificationIdCounter s) \<and>
      (\<forall>a \<in> set (map_values (assessmentsMap s)). as_submissionId a < submissionIdCounter s) \<and>
      (\<forall>f \<in> set (map_values (submissionFilesMap s)).
          file_submissionId f < submissionIdCounter s))"

definition status_inv :: "store \<Rightarrow> bool" where
  "status_inv s =
     (\<forall>sub \<in> set (map_values (submissionsMap s)).
        sub_status sub = latest_status s (sub_id sub))"

definition store_inv :: "store \<Rightarrow> bool" where
  "store_inv s = (refs_inv s \<and> status_inv s)"

section \<open>A concrete run\<close>

text \<open>
  Five registered users, one per role, then a submission with one uploaded file of
  exactly 20 MiB, the assignment of the assessor to the trainee for the unit, and an
  approving assessment. The theorems below are instantiated on the stores of this run.
\<close>

definition admin_actor :: user where
  "admin_actor = \<lparr>user_id = 1, username = ''admin'', fullName = ''Administrator'',
     role = ''admin'', isActive = True, user_createdAt = 1\<rparr>"

definition trainee_actor :: user where
  "trainee_actor = \<lparr>user_id = 2, username = ''tabitha'', fullName = ''Tabitha Trainee'',
     role = ''trainee'', isActive = True, user_createdAt = 2\<rparr>"

definition assessor_actor :: user where
  "assessor_actor = \<lparr>user_id = 3, username = ''asa'', fullName = ''Asa Assessor'',
     role = ''assessor'', isActive = True, user_createdAt = 3\<rparr>"

definition internal_actor :: user where
  "internal_actor = \<lparr>user_id = 4, username = ''ines'', fullName = ''Ines Internal'',
     role = ''internal_verifier'', isActive = True, user_createdAt = 4\<rparr>"

definition external_actor :: user where
  "external_actor = \<lparr>user_id = 5, username = ''exa'', fullName = ''Exa External'',
     role = ''external_verifier'', isActive = True, user_createdAt = 5\<rparr>"

definition register :: "user \<Rightarrow> action" where
  "register u = Store_createUser \<lparr>iu_username = username u, iu_fullName = fullName u,
     iu_role = role u, iu_isActive = None\<rparr>"

definition store_users :: store where
  "store_users =
     step 5 (register external_actor) (step 4 (register internal_actor)
       (step 3 (register assessor_actor) (step 2 (register trainee_actor)
         (step 1 (register admin_actor) empty_store))))"

definition evidence_pdf :: upload_file where
  "evidence_pdf = \<lparr>originalname = ''evidence.pdf'', mimetype = ''application/pdf'',
     path = ''uploads/1-evidence.pdf'', size = 20 * 1024 * 1024\<rparr>"

definition submission_form :: insert_submission where
  "submission_form = \<lparr>is_traineeId = 0, is_taskId = 1, is_unitId = 1, is_title = ''ER model'',
     is_description = None, is_status = None\<rparr>"

definition store_submitted :: store where
  "store_submitted =
     step 10 (Http (Some trainee_actor)
               (Post_submissions (Json (WellTyped submission_form)) [evidence_pdf])) store_users"

definition assignment_form :: insert_assignment where
  "assignment_form = \<lparr>ia_classIntakeId = 1, ia_assessorId = 3, ia_unitId = 1,
     ia_traineeId = Some 2\<rparr>"

definition store_assigned :: store where
  "store_assigned =
     step 11 (Http (Some admin_actor) (Post_assignments (WellTyped assignment_form)))
       store_submitted"

definition assessment_form :: insert_assessment where
  "assessment_form = \<lparr>ias_submissionId = 1, ias_assessorId = 3, ias_feedback = Some ''Good'',
     ias_criteria = None, ias_status = ''approved''\<rparr>"

definition store_assessed :: store where
  "store_assessed =
     step 12 (Http (Some assessor_actor) (Post_assessments (WellTyped assessment_form)))
       store_assigned"

text \<open>What an upload leaves in a stored file record.\<close>

definition file_facts :: "submissionFile \<Rightarrow> int \<times> string \<times> string \<times> string \<times> int" where
  "file_facts f =
     (file_submissionId f, file_fileName f, file_fileType f, file_filePath f, file_fileSize f)"

text \<open>
  A notification counts as read when it is stored with the flag set.
\<close>

definition is_read :: "store \<Rightarrow> int \<Rightarrow> bool" where
  "is_read s notificationId =
     (case getNotification s notificationId of None \<Rightarrow> False | Some n \<Rightarrow> notif_isRead n)"

text \<open>
  A verification request that names an assessment which does not exist, and the record
  the handler stores for it.
\<close>

definition verification_form :: insert_verification where
  "verification_form = \<lparr>iv_assessmentId = 999, iv_verifierId = 4, iv_verifierType = ''internal'',
     iv_status = ''confirmed'', iv_comments = None\<rparr>"

definition orphan_verification :: verification where
  "orphan_verification = \<lparr>ver_id = 1, ver_assessmentId = 999, ver_verifierId = 4,
     ver_verifierType = ''internal'', ver_status = ''confirmed'', ver_comments = None,
     ver_verificationDate = 20\<rparr>"

definition first_assessment :: assessment where
  "first_assessment = \<lparr>as_id = 1, as_submissionId = 1, as_assessorId = 3,
     as_feedback = Some ''Good'', as_criteria = [], as_status = ''approved'',
     as_assessmentDate = 12\<rparr>"

definition read_payload :: insert_notification where
  "read_payload = \<lparr>in_userId = 2, in_title = ''Already seen'', in_message = ''Nothing new'',
     in_isRead = Some True, in_type = ''system'', in_linkedItemId = None\<rparr>"









text \<open>A small file of an allowed type, for an upload of eleven files.\<close>

definition small_pdf :: upload_file where
  "small_pdf = \<lparr>originalname = ''note.pdf'', mimetype = ''application/pdf'',
     path = ''uploads/2-note.pdf'', size = 1\<rparr>"

text \<open>
  Creating a list of children one after the other, and the part of the store that the
  hierarchy queries read.
\<close>

fun create_all :: "('p \<Rightarrow> store \<Rightarrow> 'r \<times> store) \<Rightarrow> 'p list \<Rightarrow> store \<Rightarrow> 'r list \<times> store" where
  "create_all create [] s = ([], s)"
| "create_all create (p # ps) s =
     (let (r, s1) = create p s; (rs, s2) = create_all create ps s1 in (r # rs, s2))"

definition catalog ::
  "store \<Rightarrow> course jsmap \<times> int \<times> classIntake jsmap \<times> int \<times> course_module jsmap \<times> int" where
  "catalog s = (coursesMap s, courseIdCounter s, classIntakesMap s, classIntakeIdCounter s,
                modulesMap s, moduleIdCounter s)"

definition departments :: "store \<Rightarrow> department jsmap \<times> int" where
  "departments s = (departmentsMap s, departmentIdCounter s)"

definition catalog_inv :: "store \<Rightarrow> bool" where
  "catalog_inv s =
     (ids_ok course_id (coursesMap s) (courseIdCounter s) \<and>
      ids_ok intake_id (classIntakesMap s) (classIntakeIdCounter s) \<and>
      ids_ok mod_id (modulesMap s) (moduleIdCounter s))"

text \<open>
  A created record without its identifier, as a payload: what the round trip compares
  with the payload that went in. A module's credits come back as a number, 0 for an
  absent one.
\<close>

definition course_fields :: "course \<Rightarrow> insert_course" where
  "course_fields c =
     \<lparr>ic_name = course_name c, ic_code = course_code c,
      ic_departmentId = course_departmentId c, ic_studyLevelId = course_studyLevelId c,
      ic_description = course_description c\<rparr>"

definition intake_fields :: "classIntake \<Rightarrow> insert_classIntake" where
  "intake_fields i =
     \<lparr>ici_name = intake_name i, ici_courseId = intake_courseId i,
      ici_startDate = intake_startDate i, ici_endDate = intake_endDate i\<rparr>"

definition module_fields :: "course_module \<Rightarrow> insert_module" where
  "module_fields m =
     \<lparr>im_name = mod_name m, im_code = mod_code m, im_courseId = mod_courseId m,
      im_description = mod_description m, im_credits = Some (mod_credits m)\<rparr>"

definition with_credits :: "insert_module \<Rightarrow> insert_module" where
  "with_credits p = p\<lparr>im_credits := Some (case im_credits p of None \<Rightarrow> 0 | Some c \<Rightarrow> c)\<rparr>"

text \<open>
  \<^verbatim>\<open>MemStorage\<close> checks no reference when it stores a child. A store has no
  dangling child when every stored course names a department identifier that has already
  been handed out, and every stored intake and module a course identifier that has.
\<close>

definition no_dangling :: "store \<Rightarrow> bool" where
  "no_dangling s =
     ((\<forall>c \<in> set (map_values (coursesMap s)). course_departmentId c < departmentIdCounter s) \<and>
      (\<forall>i \<in> set (map_values (classIntakesMap s)). intake_courseId i < courseIdCounter s) \<and>
      (\<forall>m \<in> set (map_values (modulesMap s)). mod_courseId m < courseIdCounter s))"

text \<open>
  A store that holds a department with a course, an intake and a module of that course.
  In it a second department is created, then two courses (one of them in the new
  department), two intakes (one of them of the new course) and three modules (two of
  them of the new course).
\<close>

definition engineering :: insert_department where
  "engineering = \<lparr>idp_name = ''Engineering'', idp_code = ''ENG'', idp_description = None\<rparr>"

definition business :: insert_department where
  "business = \<lparr>idp_name = ''Business'', idp_code = ''BUS'', idp_description = None\<rparr>"

definition mechanical :: insert_course where
  "mechanical = \<lparr>ic_name = ''Mechanical Engineering'', ic_code = ''ME101'',
     ic_departmentId = 1, ic_studyLevelId = 3, ic_description = None\<rparr>"

definition electrical :: insert_course where
  "electrical = \<lparr>ic_name = ''Electrical Engineering'', ic_code = ''EE101'',
     ic_departmentId = 1, ic_studyLevelId = 3, ic_description = None\<rparr>"

definition accounting :: insert_course where
  "accounting = \<lparr>ic_name = ''Accounting'', ic_code = ''AC101'',
     ic_departmentId = 2, ic_studyLevelId = 4, ic_description = None\<rparr>"

definition intake_2023 :: insert_classIntake where
  "intake_2023 = \<lparr>ici_name = ''Intake 2023'', ici_courseId = 1,
     ici_startDate = ''2023-01-15'', ici_endDate = ''2025-12-15''\<rparr>"

definition intake_2024 :: insert_classIntake where
  "intake_2024 = \<lparr>ici_name = ''Intake 2024'', ici_courseId = 1,
     ici_startDate = ''2024-01-15'', ici_endDate = ''2026-12-15''\<rparr>"

definition accounting_intake :: insert_classIntake where
  "accounting_intake = \<lparr>ici_name = ''Accounting 2024'', ici_courseId = 2,
     ici_startDate = ''2024-01-15'', ici_endDate = ''2026-12-15''\<rparr>"

definition principles :: insert_module where
  "principles = \<lparr>im_name = ''Engineering Principles'', im_code = ''ENG101'',
     im_courseId = 1, im_description = None, im_credits = None\<rparr>"

definition bookkeeping :: insert_module where
  "bookkeeping = \<lparr>im_name = ''Bookkeeping'', im_code = ''AC110'',
     im_courseId = 2, im_description = None, im_credits = None\<rparr>"

definition circuits :: insert_module where
  "circuits = \<lparr>im_name = ''Circuits'', im_code = ''EE110'',
     im_courseId = 3, im_description = None, im_credits = Some 10\<rparr>"

definition auditing :: insert_module where
  "auditing = \<lparr>im_name = ''Auditing'', im_code = ''AC120'',
     im_courseId = 2, im_description = None, im_credits = Some 10\<rparr>"

definition seeded_store :: store where
  "seeded_store =
     step 9 (Store_createModule principles)
       (step 8 (Store_createClassIntake intake_2023)
          (step 7 (Store_createCourse mechanical)
             (step 6 (Store_createDepartment engineering) store_users)))"

definition catalog0 :: "department \<times> store" where
  "catalog0 = createDepartment business seeded_store"

definition catalog1 :: "course list \<times> store" where
  "catalog1 = create_all createCourse [accounting, electrical] (snd catalog0)"

definition catalog2 :: "classIntake list \<times> store" where
  "catalog2 = create_all createClassIntake [intake_2024, accounting_intake] (snd catalog1)"

definition catalog3 :: "course_module list \<times> store" where
  "catalog3 = create_all createModule [bookkeeping, circuits, auditing] (snd catalog2)"

text \<open>
  A course stored for department 1 before any department exists, in an otherwise empty
  store; then the first department is created there, with one course.
\<close>

definition orphan :: insert_course where
  "orphan = \<lparr>ic_name = ''Orphan'', ic_code = ''OR101'', ic_departmentId = 1,
     ic_studyLevelId = 3, ic_description = None\<rparr>"

definition orphan_store :: store where
  "orphan_store = step 0 (Store_createCourse orphan) empty_store"

definition orphan_department :: "department \<times> store" where
  "orphan_department = createDepartment engineering orphan_store"

definition orphan_catalog :: "course list \<times> store" where
  "orphan_catalog = create_all createCourse [mechanical] (snd orphan_department)"

text \<open>A verification request that confirms the first assessment.\<close>

definition confirming_form :: insert_verification where
  "confirming_form = \<lparr>iv_assessmentId = 1, iv_verifierId = 0, iv_verifierType = ''internal'',
     iv_status = ''confirmed'', iv_comments = None\<rparr>"

section \<open>Facts about the collections\<close>

lemma map_get_map_set:
  "map_get (map_set m k v) k' = (if k' = k then Some v else map_get m k')"
  by (induction m) (auto simp: map_get_def)

lemma set_map_set_subset: "set (map_set m k v) \<subseteq> insert (k, v) (set m)"
  by (induction m) (auto split: if_splits)

lemma map_set_fresh: "k \<notin> fst ` set m \<Longrightarrow> map_set m k v = m @ [(k, v)]"
  by (induction m) auto

lemma map_set_mem: "(k, v) \<in> set (map_set m k v)"
  by (induction m) auto

section \<open>The stores of the concrete run\<close>

lemmas actor_defs = admin_actor_def trainee_actor_def assessor_actor_def internal_actor_def
  external_actor_def register_def

lemmas storage_defs = createUser_def createSubmission_def createSubmissionFile_def
  createNotification_def createActivityLog_def createAssignment_def createAssessment_def
  createVerification_def logActivity_def updateSubmission_def getSubmission_def
  getAssignmentsByTrainee_def getAssignmentsByAssessor_def getUsersByRole_def map_get_def
  map_values_def getSubmissionFiles_def getAssessment_def getNotification_def
  updateNotification_def getUser_def updateUser_def

lemmas submissions_defs = post_submissions_def requireRole_def upload_array_def maxCount_def
  fileFilter_def allowedTypes_def fileSize_limit_def submissions_handler_def
  insertSubmissionSchema_def submissions_create_def attach_files_def notify_assessor_def

lemmas assignments_defs = post_assignments_def requireRole_def assignments_handler_def
  insertAssignmentSchema_def

lemmas assessments_defs = post_assessments_def requireRole_def assessments_handler_def
  assessments_create_def insertAssessmentSchema_def assessment_notifications_def
  notify_each_def

lemmas verifications_defs = post_verifications_def requireRole_def verifications_handler_def
  insertVerificationSchema_def verification_notifications_def notify_each_def

lemma store_users_eq:
  "store_users =
     empty_store\<lparr>usersMap := [(1, admin_actor), (2, trainee_actor), (3, assessor_actor),
                               (4, internal_actor), (5, external_actor)],
                 userIdCounter := 6\<rparr>"
  by (simp add: store_users_def actor_defs empty_store_def createUser_def Let_def)

lemma store_submitted_eq:
  "store_submitted =
     store_users\<lparr>
       submissionsMap :=
         [(1, \<lparr>sub_id = 1, sub_traineeId = 2, sub_taskId = 1, sub_unitId = 1,
               sub_title = ''ER model'', sub_description = None, sub_submissionDate = 10,
               sub_status = ''pending''\<rparr>)],
       submissionIdCounter := 2,
       submissionFilesMap :=
         [(1, \<lparr>file_id = 1, file_submissionId = 1, file_fileName = ''evidence.pdf'',
               file_fileType = ''application/pdf'', file_filePath = ''uploads/1-evidence.pdf'',
               file_fileSize = 20971520, file_uploadDate = 10\<rparr>)],
       submissionFileIdCounter := 2,
       activityLogsMap :=
         [(1, \<lparr>log_id = 1, log_userId = 2, log_action = ''created_submission'',
               log_details = [(''submissionId'', 1)], log_timestamp = 10\<rparr>)],
       activityLogIdCounter := 2\<rparr>"
  by (simp add: store_submitted_def store_users_eq actor_defs empty_store_def storage_defs
      Let_def submissions_defs evidence_pdf_def submission_form_def)

section \<open>Authorisation of assessments\<close>

text \<open>
  C3. An authenticated assessor sends a well-formed assessment of an existing submission,
  and no assignment links the submission's trainee and unit to this assessor: the answer
  is 403 and the store is the one the request found, so no assessment has been created.
\<close>

theorem post_assessments_unassigned_forbidden:
  assumes "role actor = ''assessor''"
    and "insertAssessmentSchema b"
    and "getSubmission s (ias_submissionId b) = Some submission"
    and "\<not> (\<exists>a \<in> set (map_values (assignmentsMap s)).
              asg_assessorId a = user_id actor \<and>
              asg_traineeId a = Some (sub_traineeId submission) \<and>
              asg_unitId a = sub_unitId submission)"
  shows "post_assessments now (Some actor) (WellTyped b) s = (Forbidden, s)"
  using assms
  by (auto simp: post_assessments_def requireRole_def assessments_handler_def
      getAssignmentsByAssessor_def list_ex_iff Let_def)

theorem post_assessments_unassigned_forbidden_witness:
  "role assessor_actor = ''assessor'' \<and> insertAssessmentSchema assessment_form \<and>
   getSubmission store_submitted (ias_submissionId assessment_form) \<noteq> None \<and>
   assignmentsMap store_submitted = [] \<and>
   post_assessments 12 (Some assessor_actor) (WellTyped assessment_form) store_submitted
     = (Forbidden, store_submitted)"
  using post_assessments_unassigned_forbidden
    [of assessor_actor assessment_form store_submitted
        "\<lparr>sub_id = 1, sub_traineeId = 2, sub_taskId = 1, sub_unitId = 1,
          sub_title = ''ER model'', sub_description = None, sub_submissionDate = 10,
          sub_status = ''pending''\<rparr>" 12]
  by (simp add: store_submitted_eq store_users_eq empty_store_def assessor_actor_def
      assessment_form_def insertAssessmentSchema_def getSubmission_def map_get_def
      map_values_def)


section \<open>The invariants hold in every reachable store\<close>

lemma ids_ok_fresh: "ids_ok idf m c \<Longrightarrow> c \<notin> fst ` set m"
  by (auto simp: ids_ok_def)

lemma ids_ok_distinct: "ids_ok idf m c \<Longrightarrow> distinct (map fst m)"
  by (simp add: ids_ok_def strict_sorted_iff)

lemma ids_ok_create:
  assumes "ids_ok idf m c" "idf v = c"
  shows "ids_ok idf (map_set m c v) (c + 1)"
proof -
  have "map_set m c v = m @ [(c, v)]"
    using assms(1) by (intro map_set_fresh ids_ok_fresh)
  with assms show ?thesis
    by (fastforce simp: ids_ok_def sorted_wrt_append)
qed

lemma map_set_keys_present:
  "k \<in> fst ` set m \<Longrightarrow> map fst (map_set m k v) = map fst m"
  by (induction m) force+

lemma map_get_Some_mem: "map_get m k = Some v \<Longrightarrow> (k, v) \<in> set m"
  by (simp add: map_get_def map_of_SomeD)

lemma ids_ok_update:
  assumes "ids_ok idf m c" "map_get m k = Some old" "idf v = k"
  shows "ids_ok idf (map_set m k v) c"
proof -
  have mem: "(k, old) \<in> set m" using assms(2) by (rule map_get_Some_mem)
  then have "k \<in> fst ` set m" by force
  then have keys: "map fst (map_set m k v) = map fst m" by (rule map_set_keys_present)
  have "k < c" using assms(1) mem by (auto simp: ids_ok_def)
  then show ?thesis
    using assms(1,3) keys set_map_set_subset[of m k v]
    by (auto simp: ids_ok_def)
qed

lemma ids_ok_mono: "ids_ok idf m c \<Longrightarrow> c \<le> c' \<Longrightarrow> ids_ok idf m c'"
  by (fastforce simp: ids_ok_def)

lemma ids_ok_get:
  "ids_ok idf m c \<Longrightarrow> map_get m k = Some v \<Longrightarrow> idf v = k \<and> k < c"
  by (auto simp: ids_ok_def dest!: map_get_Some_mem)

lemma set_map_set_distinct:
  "distinct (map fst m) \<Longrightarrow> set (map_set m k v) = insert (k, v) {p \<in> set m. fst p \<noteq> k}"
  by (induction m) (auto simp: rev_image_eqI split: if_splits)


lemmas inv_defs = store_inv_def refs_inv_def status_inv_def latest_status_def
  getAssessmentsBySubmission_def

lemma inv_createUser: "store_inv s \<Longrightarrow> store_inv (snd (createUser p now s))"
  by (simp add: inv_defs createUser_def Let_def)

lemma inv_updateUser: "store_inv s \<Longrightarrow> updateUser i u s = Some (r, s') \<Longrightarrow> store_inv s'"
  by (auto simp: inv_defs updateUser_def split: option.splits)

lemma inv_createDepartment: "store_inv s \<Longrightarrow> store_inv (snd (createDepartment p s))"
  by (simp add: inv_defs createDepartment_def Let_def)

lemma inv_createCourse: "store_inv s \<Longrightarrow> store_inv (snd (createCourse p s))"
  by (simp add: inv_defs createCourse_def Let_def)

lemma inv_createClassIntake: "store_inv s \<Longrightarrow> store_inv (snd (createClassIntake p s))"
  by (simp add: inv_defs createClassIntake_def Let_def)

lemma inv_createModule: "store_inv s \<Longrightarrow> store_inv (snd (createModule p s))"
  by (simp add: inv_defs createModule_def Let_def)

lemma inv_createAssignment: "store_inv s \<Longrightarrow> store_inv (snd (createAssignment p now s))"
  by (simp add: inv_defs createAssignment_def Let_def)

lemma inv_createVerification: "store_inv s \<Longrightarrow> store_inv (snd (createVerification p now s))"
  by (simp add: inv_defs createVerification_def Let_def)

lemma inv_logActivity: "store_inv s \<Longrightarrow> store_inv (logActivity u a d now s)"
  by (simp add: inv_defs logActivity_def createActivityLog_def Let_def)

lemma inv_createNotification: "store_inv s \<Longrightarrow> store_inv (snd (createNotification p now s))"
  by (simp add: inv_defs createNotification_def Let_def ids_ok_create)

lemma inv_notify_each: "store_inv s \<Longrightarrow> store_inv (notify_each now f us s)"
  unfolding notify_each_def
  by (induction us arbitrary: s) (simp_all add: inv_createNotification)

lemma inv_updateNotification:
  assumes "store_inv s" "getNotification s i = Some n"
    and "updateNotification i (n\<lparr>notif_isRead := b\<rparr>) s = Some (r, s')"
  shows "store_inv s'"
proof -
  have "ids_ok notif_id (notificationsMap s) (notificationIdCounter s)"
    using assms(1) by (simp add: inv_defs)
  moreover from this have "notif_id n = i"
    using assms(2) by (auto simp: getNotification_def dest: ids_ok_get)
  ultimately have "ids_ok notif_id (map_set (notificationsMap s) i (n\<lparr>notif_isRead := b\<rparr>))
      (notificationIdCounter s)"
    using assms(2) by (intro ids_ok_update[where old = n]) (simp_all add: getNotification_def)
  then show ?thesis
    using assms by (auto simp: inv_defs updateNotification_def split: option.splits)
qed

lemma inv_createSubmissionFile:
  "store_inv s \<Longrightarrow> if_submissionId p < submissionIdCounter s \<Longrightarrow>
   store_inv (snd (createSubmissionFile p now s))"
  using set_map_set_subset[of "submissionFilesMap s" "submissionFileIdCounter s"]
  by (fastforce simp: inv_defs createSubmissionFile_def Let_def ids_ok_create map_values_def)

lemma subcounter_createSubmissionFile:
  "submissionIdCounter (snd (createSubmissionFile p now s)) = submissionIdCounter s"
  by (simp add: createSubmissionFile_def Let_def)

lemma inv_attach_files:
  "store_inv s \<Longrightarrow> i < submissionIdCounter s \<Longrightarrow> store_inv (attach_files now i files s)"
  unfolding attach_files_def
  by (induction files arbitrary: s)
     (simp_all add: inv_createSubmissionFile subcounter_createSubmissionFile)


lemma latest_status_if:
  "latest_status s j =
     (if getAssessmentsBySubmission s j = [] then ''pending''
      else as_status (last (getAssessmentsBySubmission s j)))"
  by (simp add: latest_status_def split: list.splits)

lemma latest_status_cong:
  "assessmentsMap s' = assessmentsMap s \<Longrightarrow> latest_status s' j = latest_status s j"
  by (simp add: latest_status_def getAssessmentsBySubmission_def)

lemma latest_status_unassessed:
  "\<forall>a \<in> set (map_values (assessmentsMap s)). as_submissionId a < c \<Longrightarrow>
   latest_status s c = ''pending''"
proof -
  assume "\<forall>a \<in> set (map_values (assessmentsMap s)). as_submissionId a < c"
  then have "filter (\<lambda>a. as_submissionId a = c) (map_values (assessmentsMap s)) = []"
    by (auto simp: filter_empty_conv)
  then show ?thesis
    by (simp add: latest_status_def getAssessmentsBySubmission_def)
qed

lemma latest_status_after_create:
  assumes "ids_ok as_id (assessmentsMap s) (assessmentIdCounter s)"
    and "assessmentsMap s' = map_set (assessmentsMap s) (assessmentIdCounter s) a"
  shows "latest_status s' j = (if as_submissionId a = j then as_status a else latest_status s j)"
proof -
  have "assessmentsMap s' = assessmentsMap s @ [(assessmentIdCounter s, a)]"
    using assms by (simp add: map_set_fresh ids_ok_fresh)
  then show ?thesis
    by (simp add: latest_status_if getAssessmentsBySubmission_def map_values_def)
qed

lemma inv_createSubmission:
  assumes "store_inv s" "is_status p = Some ''pending''"
  shows "store_inv (snd (createSubmission p now s))"
proof -
  let ?c = "submissionIdCounter s"
  let ?s' = "snd (createSubmission p now s)"
  have refs: "refs_inv s" and st: "status_inv s" using assms(1) by (simp_all add: store_inv_def)
  obtain sub where sub: "submissionsMap ?s' = map_set (submissionsMap s) ?c sub"
      "sub_id sub = ?c" "sub_status sub = ''pending''"
    using assms(2) by (simp add: createSubmission_def Let_def)
  have rest: "assessmentsMap ?s' = assessmentsMap s" "submissionFilesMap ?s' = submissionFilesMap s"
     "notificationsMap ?s' = notificationsMap s" "submissionIdCounter ?s' = ?c + 1"
     "assessmentIdCounter ?s' = assessmentIdCounter s"
     "submissionFileIdCounter ?s' = submissionFileIdCounter s"
     "notificationIdCounter ?s' = notificationIdCounter s"
    by (simp_all add: createSubmission_def Let_def)
  have "refs_inv ?s'"
    using refs sub(2) unfolding refs_inv_def sub(1) rest
    by (fastforce intro: ids_ok_create)
  moreover have "status_inv ?s'"
    unfolding status_inv_def
  proof
    fix x assume "x \<in> set (map_values (submissionsMap ?s'))"
    then have "x = sub \<or> x \<in> set (map_values (submissionsMap s))"
      using set_map_set_subset[of "submissionsMap s" ?c sub]
      by (auto simp: sub(1) map_values_def)
    then show "sub_status x = latest_status ?s' (sub_id x)"
    proof
      assume "x = sub"
      moreover have "latest_status s ?c = ''pending''"
        using refs by (intro latest_status_unassessed) (simp add: refs_inv_def)
      ultimately show ?thesis
        using sub by (simp add: latest_status_cong[OF rest(1)])
    next
      assume "x \<in> set (map_values (submissionsMap s))"
      then show ?thesis
        using st by (simp add: status_inv_def latest_status_cong[OF rest(1)])
    qed
  qed
  ultimately show ?thesis by (simp add: store_inv_def)
qed

lemma inv_assessments_create:
  assumes inv: "store_inv s"
    and sub: "getSubmission s (ias_submissionId b) = Some submission"
    and schema: "insertAssessmentSchema b"
  shows "store_inv (snd (assessments_create now actor b submission s))"
proof -
  let ?k = "ias_submissionId b"
  let ?c = "assessmentIdCounter s"
  define st where "st = (if ias_status b = ''approved'' then ''approved''
                     else if ias_status b = ''rejected'' then ''rejected'' else ''resubmit'')"
  define a where "a = fst (createAssessment (b\<lparr>ias_assessorId := user_id actor\<rparr>) now s)"
  define s2 where "s2 = s\<lparr>assessmentIdCounter := ?c + 1,
      assessmentsMap := map_set (assessmentsMap s) ?c a,
      submissionsMap := map_set (submissionsMap s) ?k (submission\<lparr>sub_status := st\<rparr>)\<rparr>"
  have refs: "refs_inv s" and stat: "status_inv s" using inv by (simp_all add: store_inv_def)
  have a: "as_id a = ?c" "as_submissionId a = ?k" "as_status a = ias_status b"
    by (simp_all add: a_def createAssessment_def Let_def)
  have st_eq: "st = ias_status b"
    using schema by (auto simp: st_def insertAssessmentSchema_def)
  have get: "map_get (submissionsMap s) ?k = Some submission"
    using sub by (simp add: getSubmission_def)
  have subid: "sub_id submission = ?k" "?k < submissionIdCounter s"
    using refs get by (auto simp: refs_inv_def dest: ids_ok_get)
  have res: "snd (assessments_create now actor b submission s)
      = logActivity (user_id actor) ''created_assessment'' [(''assessmentId'', as_id a)] now
          (assessment_notifications now b submission a s2)"
    using sub
    by (simp add: assessments_create_def a_def s2_def st_def createAssessment_def Let_def
        updateSubmission_def getSubmission_def)
  have "refs_inv s2"
    using refs a subid get set_map_set_subset[of "assessmentsMap s" ?c a]
    unfolding refs_inv_def s2_def
    by (auto intro!: ids_ok_create ids_ok_update[where old = submission] simp: map_values_def)
  moreover have "status_inv s2"
    unfolding status_inv_def
  proof
    fix x assume "x \<in> set (map_values (submissionsMap s2))"
    then obtain j where j: "(j, x) \<in> set (map_set (submissionsMap s) ?k (submission\<lparr>sub_status := st\<rparr>))"
      by (auto simp: s2_def map_values_def)
    have dist: "distinct (map fst (submissionsMap s))"
      using refs by (auto simp: refs_inv_def dest: ids_ok_distinct)
    have latest: "\<And>i. latest_status s2 i = (if ?k = i then ias_status b else latest_status s i)"
      using latest_status_after_create[of s s2 a] refs a
      by (simp add: refs_inv_def s2_def)
    from j consider "x = submission\<lparr>sub_status := st\<rparr>" | "(j, x) \<in> set (submissionsMap s)" "j \<noteq> ?k"
      by (auto simp: set_map_set_distinct[OF dist])
    then show "sub_status x = latest_status s2 (sub_id x)"
    proof cases
      case 1
      then show ?thesis using subid st_eq by (simp add: latest)
    next
      case 2
      then have "sub_id x = j" using refs by (auto simp: refs_inv_def ids_ok_def)
      moreover have "sub_status x = latest_status s (sub_id x)"
        using stat 2(1) by (force simp: status_inv_def map_values_def)
      ultimately show ?thesis using 2(2) by (simp add: latest)
    qed
  qed
  ultimately have "store_inv s2" by (simp add: store_inv_def)
  then show ?thesis
    unfolding res assessment_notifications_def
    by (auto simp: Let_def intro!: inv_logActivity inv_notify_each inv_createNotification)
qed


lemma inv_post_users_deactivate:
  "store_inv s \<Longrightarrow> store_inv (snd (post_users_deactivate now usr i s))"
  by (auto simp: post_users_deactivate_def split: option.splits
      intro!: inv_logActivity elim: inv_updateUser)

lemma inv_post_assignments:
  "store_inv s \<Longrightarrow> store_inv (snd (post_assignments now usr b s))"
  by (auto simp: post_assignments_def assignments_handler_def Let_def split_def
      split: option.splits body.splits
      intro!: inv_logActivity inv_createNotification inv_createAssignment)

lemma submissions_create_counter:
  "sub_id (fst (createSubmission p now s)) < submissionIdCounter (snd (createSubmission p now s))"
  by (simp add: createSubmission_def Let_def)

lemma inv_notify_assessor:
  "store_inv s \<Longrightarrow> store_inv (notify_assessor now t submission s)"
  by (auto simp: notify_assessor_def split: option.splits intro!: inv_createNotification)

lemma inv_post_submissions:
  "store_inv s \<Longrightarrow> store_inv (snd (post_submissions now usr d files s))"
  by (auto simp: post_submissions_def submissions_handler_def submissions_create_def
      Let_def split_def
      split: option.splits body.splits form_field.splits
      intro!: inv_logActivity inv_notify_assessor inv_attach_files inv_createSubmission
        submissions_create_counter)

lemma inv_post_assessments:
  "store_inv s \<Longrightarrow> store_inv (snd (post_assessments now usr b s))"
  by (auto simp: post_assessments_def assessments_handler_def Let_def
      split: option.splits body.splits intro!: inv_assessments_create)

lemma inv_post_verifications:
  "store_inv s \<Longrightarrow> store_inv (snd (post_verifications now usr b s))"
  by (auto simp: post_verifications_def verifications_handler_def
      verification_notifications_def Let_def split_def
      split: option.splits body.splits
      intro!: inv_logActivity inv_notify_each inv_createNotification inv_createVerification)

lemma inv_post_notifications_read:
  "store_inv s \<Longrightarrow> store_inv (snd (post_notifications_read usr i s))"
  by (auto simp: post_notifications_read_def split: option.splits
      elim: inv_updateNotification)

lemma inv_handle: "store_inv s \<Longrightarrow> store_inv (handle now usr r s)"
  by (cases r)
     (auto simp: inv_post_users_deactivate inv_post_assignments inv_post_submissions
       inv_post_assessments inv_post_verifications inv_post_notifications_read
       inv_logActivity split: option.splits)

lemma inv_step: "store_inv s \<Longrightarrow> store_inv (step now a s)"
  by (cases a)
     (simp_all add: inv_handle inv_createUser inv_createDepartment inv_createCourse
       inv_createClassIntake inv_createModule)

lemma inv_empty_store: "store_inv empty_store"
  by (simp add: inv_defs empty_store_def ids_ok_def map_values_def)

lemma reachable_inv: "reachable s \<Longrightarrow> store_inv s"
  by (induction rule: reachable.induct) (simp_all add: inv_empty_store inv_step)

lemma assessments_creation_order:
  assumes "ids_ok as_id (assessmentsMap s) (assessmentIdCounter s)"
  shows "sorted_wrt (\<lambda>a a'. as_id a < as_id a') (getAssessmentsBySubmission s k)"
proof -
  have "map as_id (map_values (assessmentsMap s)) = map fst (assessmentsMap s)"
    using assms by (auto simp: ids_ok_def map_values_def)
  then have "sorted_wrt (<) (map as_id (map_values (assessmentsMap s)))"
    using assms by (simp add: ids_ok_def)
  then have "sorted_wrt (\<lambda>a a'. as_id a < as_id a') (map_values (assessmentsMap s))"
    by (simp add: sorted_wrt_map)
  then show ?thesis
    unfolding getAssessmentsBySubmission_def by (rule sorted_wrt_filter)
qed


section \<open>Submission status and assessments\<close>

text \<open>
  C2. In every store reachable by the routes and the storage calls of start-up and
  registration, a stored submission's status is the status of the last assessment in the
  list of its assessments, \<^verbatim>\<open>pending\<close> when the list is empty; the list is in
  ascending order of identifiers, which is the order of creation, so its last element
  is the most recently created assessment of the submission.
\<close>

theorem submission_status_mirrors_latest_assessment:
  assumes "reachable s" and "sub \<in> set (getAllSubmissions s)"
  shows "sub_status sub =
           (case getAssessmentsBySubmission s (sub_id sub) of
              [] \<Rightarrow> ''pending''
            | as \<Rightarrow> as_status (last as)) \<and>
         sorted_wrt (\<lambda>a a'. as_id a < as_id a') (getAssessmentsBySubmission s (sub_id sub))"
proof -
  have inv: "store_inv s" using assms(1) by (rule reachable_inv)
  then have ids: "ids_ok as_id (assessmentsMap s) (assessmentIdCounter s)"
    by (simp add: store_inv_def refs_inv_def)
  have "sub_status sub = latest_status s (sub_id sub)"
    using inv assms(2) by (simp add: store_inv_def status_inv_def getAllSubmissions_def)
  then show ?thesis
    using assessments_creation_order[OF ids] by (simp add: latest_status_def)
qed

lemma reachable_store_users: "reachable store_users"
  unfolding store_users_def by (intro reachable.intros)

lemma reachable_store_submitted: "reachable store_submitted"
  unfolding store_submitted_def by (intro reachable.after reachable_store_users)

lemma reachable_store_assigned: "reachable store_assigned"
  unfolding store_assigned_def by (intro reachable.after reachable_store_submitted)

lemma reachable_store_assessed: "reachable store_assessed"
  unfolding store_assessed_def by (intro reachable.after reachable_store_assigned)

lemmas run_defs = store_assessed_def store_assigned_def store_submitted_eq store_users_eq
  empty_store_def actor_defs storage_defs assignment_form_def assessment_form_def
  assignments_defs assessments_defs first_assessment_def Let_def

theorem submission_status_mirrors_latest_assessment_witness:
  "reachable store_assessed \<and>
   map sub_id (getAllSubmissions store_assessed) = [1] \<and>
   map sub_status (getAllSubmissions store_assessed) = [''approved''] \<and>
   getAssessmentsBySubmission store_assessed 1 = [first_assessment] \<and>
   as_status first_assessment = ''approved''"
proof -
  let ?sub = "\<lparr>sub_id = 1, sub_traineeId = 2, sub_taskId = 1, sub_unitId = 1,
            sub_title = ''ER model'', sub_description = None, sub_submissionDate = 10,
            sub_status = ''approved''\<rparr>"
  have all: "getAllSubmissions store_assessed = [?sub]"
    by (simp add: run_defs getAllSubmissions_def)
  have as: "getAssessmentsBySubmission store_assessed 1 = [first_assessment]"
    by (simp add: run_defs getAssessmentsBySubmission_def)
  have "?sub \<in> set (getAllSubmissions store_assessed)"
    by (simp add: all)
  from submission_status_mirrors_latest_assessment[OF reachable_store_assessed this]
  have "sub_status ?sub = as_status first_assessment"
    by (simp add: as)
  then show ?thesis
    using reachable_store_assessed by (simp add: all as)
qed

section \<open>Notification of internal verifiers\<close>

lemma map_set_other: "(k, v) \<in> set m \<Longrightarrow> k \<noteq> k' \<Longrightarrow> (k, v) \<in> set (map_set m k' v')"
  by (induction m) auto

lemma notify_each_frame:
  "\<exists>ns c. notify_each now f us s = s\<lparr>notificationsMap := ns, notificationIdCounter := c\<rparr>"
  unfolding notify_each_def
proof (induction us arbitrary: s)
  case Nil
  show ?case
    by (rule exI[of _ "notificationsMap s"], rule exI[of _ "notificationIdCounter s"]) simp
next
  case (Cons x xs)
  obtain ns c where "fold (\<lambda>verifier st. snd (createNotification (f verifier) now st)) xs
      (snd (createNotification (f x) now s))
      = (snd (createNotification (f x) now s))\<lparr>notificationsMap := ns, notificationIdCounter := c\<rparr>"
    using Cons.IH by blast
  then show ?case
    by (auto simp: createNotification_def Let_def intro!: exI[of _ ns] exI[of _ c])
qed

lemma notify_each_other:
  "usersMap (notify_each now f us s) = usersMap s"
  "assessmentsMap (notify_each now f us s) = assessmentsMap s"
  "submissionsMap (notify_each now f us s) = submissionsMap s"
  "verificationsMap (notify_each now f us s) = verificationsMap s"
  using notify_each_frame[of now f us s] by auto

lemma notify_each_counter:
  "notificationIdCounter (notify_each now f us s) = notificationIdCounter s + int (length us)"
  unfolding notify_each_def
  by (induction us arbitrary: s) (simp_all add: createNotification_def Let_def)

lemma notify_each_keeps:
  "(k, n) \<in> set (notificationsMap s) \<Longrightarrow> k < notificationIdCounter s \<Longrightarrow>
   (k, n) \<in> set (notificationsMap (notify_each now f us s))"
  unfolding notify_each_def
  by (induction us arbitrary: s) (simp_all add: createNotification_def Let_def map_set_other)

lemma notify_each_creates:
  "u \<in> set us \<Longrightarrow>
   \<exists>n. (notif_id n, n) \<in> set (notificationsMap (notify_each now f us s)) \<and>
       notificationIdCounter s \<le> notif_id n \<and>
       notif_userId n = in_userId (f u) \<and> notif_type n = in_type (f u) \<and>
       notif_linkedItemId n = in_linkedItemId (f u) \<and> \<not> notif_isRead n"
proof (induction us arbitrary: s)
  case Nil
  then show ?case by simp
next
  case (Cons x xs)
  let ?s1 = "snd (createNotification (f x) now s)"
  have unfold: "notify_each now f (x # xs) s = notify_each now f xs ?s1"
    by (simp add: notify_each_def)
  have c1: "notificationIdCounter ?s1 = notificationIdCounter s + 1"
    by (simp add: createNotification_def Let_def)
  show ?case
  proof (cases "u = x")
    case True
    let ?n = "fst (createNotification (f x) now s)"
    have "(notif_id ?n, ?n) \<in> set (notificationsMap ?s1)"
      by (simp add: createNotification_def Let_def map_set_mem)
    moreover have "notif_id ?n < notificationIdCounter ?s1"
      by (simp add: createNotification_def Let_def)
    ultimately have "(notif_id ?n, ?n) \<in> set (notificationsMap (notify_each now f xs ?s1))"
      by (rule notify_each_keeps)
    then show ?thesis
      unfolding unfold using True
      by (intro exI[of _ ?n]) (simp add: createNotification_def Let_def)
  next
    case False
    then have "u \<in> set xs" using Cons.prems by simp
    from Cons.IH[OF this, of ?s1] show ?thesis
      unfolding unfold c1 by force
  qed
qed

lemma assessments_create_eq:
  assumes "getSubmission s (ias_submissionId b) = Some submission"
  shows "assessments_create now actor b submission s =
    (let a = fst (createAssessment (b\<lparr>ias_assessorId := user_id actor\<rparr>) now s);
         s2 = s\<lparr>assessmentIdCounter := assessmentIdCounter s + 1,
                assessmentsMap := map_set (assessmentsMap s) (assessmentIdCounter s) a,
                submissionsMap := map_set (submissionsMap s) (ias_submissionId b)
                  (submission\<lparr>sub_status :=
                     (if ias_status b = ''approved'' then ''approved''
                      else if ias_status b = ''rejected'' then ''rejected''
                      else ''resubmit'')\<rparr>)\<rparr>
     in (Created a, logActivity (user_id actor) ''created_assessment''
                      [(''assessmentId'', as_id a)] now
                      (assessment_notifications now b submission a s2)))"
  using assms
  by (simp add: assessments_create_def createAssessment_def Let_def
      updateSubmission_def getSubmission_def)

lemma post_assessments_cases:
  assumes "post_assessments now usr reqBody s = (resp, s')"
  obtains (refused) "s' = s" "resp \<in> {Unauthorized, Forbidden, BadRequest, NotFound}"
  | (accepted) actor b submission where "usr = Some actor" "reqBody = WellTyped b"
      "role actor = ''assessor''" "insertAssessmentSchema b"
      "getSubmission s (ias_submissionId b) = Some submission"
      "assessments_create now actor b submission s = (resp, s')"
  using assms
  by (auto simp: post_assessments_def assessments_handler_def requireRole_def Let_def
      split: option.splits body.splits if_splits)

lemma notifications_logActivity:
  "notificationsMap (logActivity u a d now s) = notificationsMap s"
  by (simp add: logActivity_def createActivityLog_def Let_def)

text \<open>
  C4. Whenever a call of POST /api/assessments on a reachable store creates an assessment
  (one stored afterwards that was not stored before) and its status is
  \<^verbatim>\<open>approved\<close>, then for every user who had the role
  \<^verbatim>\<open>internal_verifier\<close> when the call was made the call has created a
  notification of type \<^verbatim>\<open>verification\<close>, addressed to that user and linked to
  the assessment.
\<close>

theorem approved_assessment_notifies_internal_verifiers:
  assumes reach: "reachable s"
    and call: "post_assessments now usr reqBody s = (resp, s')"
    and new: "a \<in> set (map_values (assessmentsMap s'))"
             "a \<notin> set (map_values (assessmentsMap s))"
    and approved: "as_status a = ''approved''"
    and verifier: "v \<in> set (getUsersByRole s ''internal_verifier'')"
  shows "\<exists>n \<in> set (map_values (notificationsMap s')).
           n \<notin> set (map_values (notificationsMap s)) \<and>
           notif_userId n = user_id v \<and> notif_type n = ''verification'' \<and>
           notif_linkedItemId n = Some (as_id a)"
  using call
proof (cases rule: post_assessments_cases)
  case refused
  then show ?thesis using new by simp
next
  case (accepted actor b submission)
  define a0 where "a0 = fst (createAssessment (b\<lparr>ias_assessorId := user_id actor\<rparr>) now s)"
  define s2 where "s2 = s\<lparr>assessmentIdCounter := assessmentIdCounter s + 1,
                assessmentsMap := map_set (assessmentsMap s) (assessmentIdCounter s) a0,
                submissionsMap := map_set (submissionsMap s) (ias_submissionId b)
                  (submission\<lparr>sub_status :=
                     (if ias_status b = ''approved'' then ''approved''
                      else if ias_status b = ''rejected'' then ''rejected''
                      else ''resubmit'')\<rparr>)\<rparr>"
  define s3 where "s3 = snd (createNotification
                 \<lparr>in_userId = sub_traineeId submission,
                  in_title = ''Assessment Feedback Available'',
                  in_message = ''Your submission for '' @ sub_title submission
                    @ '' has been assessed'',
                  in_isRead = Some False, in_type = ''assessment'',
                  in_linkedItemId = Some (as_id a0)\<rparr> now s2)"
  define payload where "payload = (\<lambda>verifier::user.
                   \<lparr>in_userId = user_id verifier,
                    in_title = ''Verification Required'',
                    in_message = ''A new assessment needs verification'',
                    in_isRead = Some False, in_type = ''verification'',
                    in_linkedItemId = Some (as_id a0)\<rparr>)"
  have s': "s' = logActivity (user_id actor) ''created_assessment''
                      [(''assessmentId'', as_id a0)] now
                      (assessment_notifications now b submission a0 s2)"
    using accepted(6) assessments_create_eq[OF accepted(5), of now actor]
    by (simp add: Let_def a0_def s2_def)
  have notif: "assessment_notifications now b submission a0 s2 =
      (if ias_status b = ''approved''
       then notify_each now payload (getUsersByRole s3 ''internal_verifier'') s3 else s3)"
    by (simp add: assessment_notifications_def s3_def payload_def Let_def)
  have s3_fields: "assessmentsMap s3 = assessmentsMap s2" "usersMap s3 = usersMap s"
      "notificationIdCounter s3 = notificationIdCounter s + 1"
    by (simp_all add: s3_def s2_def createNotification_def Let_def)
  have am: "assessmentsMap s' = map_set (assessmentsMap s) (assessmentIdCounter s) a0"
    by (simp add: s' notif logActivity_def createActivityLog_def Let_def notify_each_other
        s3_fields) (simp add: s2_def)
  have "a = a0"
    using new set_map_set_subset[of "assessmentsMap s" "assessmentIdCounter s" a0]
    by (auto simp: am map_values_def)
  then have status: "ias_status b = ''approved''"
    using approved by (simp add: a0_def createAssessment_def Let_def)
  have nm: "notificationsMap s' =
      notificationsMap (notify_each now payload (getUsersByRole s ''internal_verifier'') s3)"
    by (simp add: s' notif status notifications_logActivity getUsersByRole_def s3_fields)
  obtain n where n: "(notif_id n, n) \<in> set (notificationsMap s')"
      "notificationIdCounter s3 \<le> notif_id n" "notif_userId n = user_id v"
      "notif_type n = ''verification''" "notif_linkedItemId n = Some (as_id a0)"
    using notify_each_creates[OF verifier, of now payload s3]
    by (auto simp: nm payload_def)
  have "ids_ok notif_id (notificationsMap s) (notificationIdCounter s)"
    using reachable_inv[OF reach] by (simp add: store_inv_def refs_inv_def)
  then have "n \<notin> set (map_values (notificationsMap s))"
    using n(2) by (auto simp: ids_ok_def map_values_def s3_fields)
  moreover have "n \<in> set (map_values (notificationsMap s'))"
    using n(1) by (force simp: map_values_def)
  ultimately show ?thesis
    using n \<open>a = a0\<close> by blast
qed

theorem approved_assessment_notifies_internal_verifiers_witness:
  "reachable store_assigned \<and>
   post_assessments 12 (Some assessor_actor) (WellTyped assessment_form) store_assigned
     = (Created first_assessment, store_assessed) \<and>
   first_assessment \<in> set (map_values (assessmentsMap store_assessed)) \<and>
   first_assessment \<notin> set (map_values (assessmentsMap store_assigned)) \<and>
   as_status first_assessment = ''approved'' \<and>
   internal_actor \<in> set (getUsersByRole store_assigned ''internal_verifier'') \<and>
   (\<exists>n \<in> set (map_values (notificationsMap store_assessed)).
      n \<notin> set (map_values (notificationsMap store_assigned)) \<and>
      notif_userId n = user_id internal_actor \<and> notif_type n = ''verification'' \<and>
      notif_linkedItemId n = Some (as_id first_assessment))"
proof -
  have call: "post_assessments 12 (Some assessor_actor) (WellTyped assessment_form) store_assigned
     = (Created first_assessment, store_assessed)"
    by (simp add: run_defs)
  have new: "first_assessment \<in> set (map_values (assessmentsMap store_assessed))"
    "first_assessment \<notin> set (map_values (assessmentsMap store_assigned))"
    by (simp_all add: run_defs)
  have approved: "as_status first_assessment = ''approved''"
    by (simp add: first_assessment_def)
  have verifier: "internal_actor \<in> set (getUsersByRole store_assigned ''internal_verifier'')"
    by (simp add: run_defs)
  show ?thesis
    using approved_assessment_notifies_internal_verifiers
      [OF reachable_store_assigned call new approved verifier]
      reachable_store_assigned call new approved verifier
    by simp
qed

section \<open>Submissions for a unit without assignment\<close>

lemma attach_files_frame:
  "\<exists>fm c. attach_files now i files s = s\<lparr>submissionFilesMap := fm, submissionFileIdCounter := c\<rparr>"
  unfolding attach_files_def
proof (induction files arbitrary: s)
  case Nil
  show ?case
    by (rule exI[of _ "submissionFilesMap s"], rule exI[of _ "submissionFileIdCounter s"]) simp
next
  case (Cons x xs)
  let ?s1 = "snd (createSubmissionFile
                   \<lparr>if_submissionId = i, if_fileName = originalname x,
                    if_fileType = mimetype x, if_filePath = path x,
                    if_fileSize = size x\<rparr> now s)"
  obtain fm c where "fold (\<lambda>file st. snd (createSubmissionFile
                            \<lparr>if_submissionId = i, if_fileName = originalname file,
                             if_fileType = mimetype file, if_filePath = path file,
                             if_fileSize = size file\<rparr> now st)) xs ?s1
      = ?s1\<lparr>submissionFilesMap := fm, submissionFileIdCounter := c\<rparr>"
    using Cons.IH by blast
  then show ?case
    by (auto simp: createSubmissionFile_def Let_def intro!: exI[of _ fm] exI[of _ c])
qed

lemma attach_files_other:
  "submissionsMap (attach_files now i files s) = submissionsMap s"
  "assignmentsMap (attach_files now i files s) = assignmentsMap s"
  "notificationsMap (attach_files now i files s) = notificationsMap s"
  "notificationIdCounter (attach_files now i files s) = notificationIdCounter s"
  using attach_files_frame[of now i files s] by auto
lemma attach_files_appends:
  assumes "ids_ok file_id (submissionFilesMap s) (submissionFileIdCounter s)"
  shows "\<exists>new. submissionFilesMap (attach_files now i files s) = submissionFilesMap s @ new \<and>
           map (file_facts \<circ> snd) new =
             map (\<lambda>u. (i, originalname u, mimetype u, path u, size u)) files"
  using assms
proof (induction files arbitrary: s)
  case Nil
  then show ?case by (simp add: attach_files_def)
next
  case (Cons x xs)
  let ?p = "\<lparr>if_submissionId = i, if_fileName = originalname x,
                    if_fileType = mimetype x, if_filePath = path x,
                    if_fileSize = size x\<rparr>"
  let ?s1 = "snd (createSubmissionFile ?p now s)"
  let ?f = "fst (createSubmissionFile ?p now s)"
  have unfold: "attach_files now i (x # xs) s = attach_files now i xs ?s1"
    by (simp add: attach_files_def)
  have m1: "submissionFilesMap ?s1 = submissionFilesMap s @ [(submissionFileIdCounter s, ?f)]"
    using Cons.prems
    by (simp add: createSubmissionFile_def Let_def map_set_fresh ids_ok_fresh)
  have "ids_ok file_id (submissionFilesMap ?s1) (submissionFileIdCounter ?s1)"
    using Cons.prems ids_ok_create[of file_id "submissionFilesMap s" "submissionFileIdCounter s" ?f]
    by (simp add: createSubmissionFile_def Let_def)
  from Cons.IH[OF this] obtain new where
    new: "submissionFilesMap (attach_files now i xs ?s1) = submissionFilesMap ?s1 @ new"
      "map (file_facts \<circ> snd) new = map (\<lambda>u. (i, originalname u, mimetype u, path u, size u)) xs"
    by blast
  have "file_facts ?f = (i, originalname x, mimetype x, path x, size x)"
    by (simp add: file_facts_def createSubmissionFile_def Let_def)
  with new have "submissionFilesMap (attach_files now i xs ?s1)
        = submissionFilesMap s @ ((submissionFileIdCounter s, ?f) # new) \<and>
      map (file_facts \<circ> snd) ((submissionFileIdCounter s, ?f) # new)
        = map (\<lambda>u. (i, originalname u, mimetype u, path u, size u)) (x # xs)"
    by (simp add: m1)
  then show ?case
    unfolding unfold by blast
qed

text \<open>
  C6. A trainee's request passes the upload middleware and the schema check, and no
  assignment names this trainee together with the submission's unit. Then the answer is
  201 with a submission that was not stored before and is stored now, with status
  \<^verbatim>\<open>pending\<close>, the trainee's identifier and the requested unit and task; the
  files returned are the stored files of that submission and correspond, one to one and
  in order, to the uploaded files; and the notifications are exactly those of before: none
  has been created, for an assessor or anyone else.
\<close>

theorem submission_without_assignment_created_unnotified:
  assumes reach: "reachable s"
    and trainee: "role actor = ''trainee''"
    and upload: "upload_array files = None"
    and schema: "insertSubmissionSchema (d\<lparr>is_traineeId := user_id actor\<rparr>)"
    and unassigned:
      "\<not> (\<exists>a \<in> set (map_values (assignmentsMap s)).
            asg_traineeId a = Some (user_id actor) \<and> asg_unitId a = is_unitId d)"
  shows "\<exists>submission fs s'.
           post_submissions now (Some actor) (Json (WellTyped d)) files s
             = (Created (submission, fs), s') \<and>
           getSubmission s (sub_id submission) = None \<and>
           getSubmission s' (sub_id submission) = Some submission \<and>
           sub_status submission = ''pending'' \<and>
           sub_traineeId submission = user_id actor \<and>
           sub_unitId submission = is_unitId d \<and> sub_taskId submission = is_taskId d \<and>
           fs = getSubmissionFiles s' (sub_id submission) \<and>
           map file_facts fs =
             map (\<lambda>u. (sub_id submission, originalname u, mimetype u, path u, size u)) files \<and>
           notificationsMap s' = notificationsMap s \<and>
           notificationIdCounter s' = notificationIdCounter s"
proof -
  let ?p = "d\<lparr>is_traineeId := user_id actor, is_status := Some ''pending''\<rparr>"
  define sub where "sub = fst (createSubmission ?p now s)"
  define s1 where "s1 = snd (createSubmission ?p now s)"
  define s2 where "s2 = attach_files now (sub_id sub) files s1"
  define s4 where "s4 = logActivity (user_id actor) ''created_submission''
                 [(''submissionId'', sub_id sub)] now s2"
  have inv: "refs_inv s" using reachable_inv[OF reach] by (simp add: store_inv_def)
  have sub: "sub_id sub = submissionIdCounter s" "sub_status sub = ''pending''"
      "sub_traineeId sub = user_id actor" "sub_unitId sub = is_unitId d"
      "sub_taskId sub = is_taskId d"
    by (simp_all add: sub_def createSubmission_def Let_def)
  have s1: "submissionsMap s1 = map_set (submissionsMap s) (submissionIdCounter s) sub"
      "assignmentsMap s1 = assignmentsMap s" "notificationsMap s1 = notificationsMap s"
      "notificationIdCounter s1 = notificationIdCounter s"
      "submissionFilesMap s1 = submissionFilesMap s"
      "submissionFileIdCounter s1 = submissionFileIdCounter s"
    by (simp_all add: s1_def sub_def createSubmission_def Let_def)
  have "find (\<lambda>a. asg_unitId a = sub_unitId sub) (getAssignmentsByTrainee s2 (user_id actor)) = None"
    using unassigned
    by (auto simp: find_None_iff getAssignmentsByTrainee_def s2_def attach_files_other s1 sub)
  then have notify: "notify_assessor now (user_id actor) sub s2 = s2"
    by (simp add: notify_assessor_def)
  have call: "post_submissions now (Some actor) (Json (WellTyped d)) files s
      = (Created (sub, getSubmissionFiles s4 (sub_id sub)), s4)"
    using trainee upload schema
    by (simp add: post_submissions_def requireRole_def submissions_handler_def
        submissions_create_def Let_def split_def notify
        sub_def[symmetric] s1_def[symmetric] s2_def[symmetric] s4_def[symmetric])
  have s4: "submissionsMap s4 = submissionsMap s1" "notificationsMap s4 = notificationsMap s"
      "notificationIdCounter s4 = notificationIdCounter s"
      "submissionFilesMap s4 = submissionFilesMap s2"
    by (simp_all add: s4_def logActivity_def createActivityLog_def Let_def s2_def
        attach_files_other s1)
  have fresh: "getSubmission s (sub_id sub) = None"
    using inv ids_ok_fresh[of sub_id "submissionsMap s" "submissionIdCounter s"]
    by (simp add: refs_inv_def getSubmission_def map_get_def sub map_of_eq_None_iff)
  have stored: "getSubmission s4 (sub_id sub) = Some sub"
    by (simp add: getSubmission_def s4 s1 sub map_get_map_set)
  obtain new where new: "submissionFilesMap s2 = submissionFilesMap s @ new"
      "map (file_facts \<circ> snd) new
         = map (\<lambda>u. (sub_id sub, originalname u, mimetype u, path u, size u)) files"
    using attach_files_appends[of s1 now "sub_id sub" files] inv
    by (auto simp: refs_inv_def s1 s2_def)
  have old: "filter (\<lambda>f. file_submissionId f = sub_id sub) (map snd (submissionFilesMap s)) = []"
    using inv by (auto simp: refs_inv_def filter_empty_conv map_values_def sub)
  have "\<forall>f \<in> set (map snd new). file_submissionId f = sub_id sub"
  proof
    fix f assume "f \<in> set (map snd new)"
    then have "file_facts f \<in> set (map (file_facts \<circ> snd) new)" by auto
    then show "file_submissionId f = sub_id sub"
      unfolding new(2) by (auto simp: file_facts_def)
  qed
  then have "filter (\<lambda>f. file_submissionId f = sub_id sub) (map snd new) = map snd new"
    by (simp add: filter_id_conv)
  then have files: "getSubmissionFiles s4 (sub_id sub) = map snd new"
    by (simp add: getSubmissionFiles_def map_values_def s4 new(1) old)
  have "map file_facts (getSubmissionFiles s4 (sub_id sub))
      = map (\<lambda>u. (sub_id sub, originalname u, mimetype u, path u, size u)) files"
    using new(2) by (simp add: files)
  then show ?thesis
    using call fresh stored sub s4 by blast
qed

theorem submission_without_assignment_created_unnotified_witness:
  "reachable store_users \<and> role trainee_actor = ''trainee'' \<and>
   upload_array [evidence_pdf] = None \<and>
   insertSubmissionSchema (submission_form\<lparr>is_traineeId := user_id trainee_actor\<rparr>) \<and>
   assignmentsMap store_users = [] \<and>
   (\<exists>submission fs.
      fst (post_submissions 10 (Some trainee_actor) (Json (WellTyped submission_form))
            [evidence_pdf] store_users) = Created (submission, fs) \<and>
      getSubmission store_submitted (sub_id submission) = Some submission \<and>
      sub_status submission = ''pending'' \<and>
      map file_facts fs =
        [(sub_id submission, originalname evidence_pdf, mimetype evidence_pdf,
          path evidence_pdf, size evidence_pdf)]) \<and>
   notificationsMap store_submitted = notificationsMap store_users"
proof -
  have trainee: "role trainee_actor = ''trainee''" by (simp add: trainee_actor_def)
  have upload: "upload_array [evidence_pdf] = None"
    by (simp add: upload_array_def maxCount_def fileFilter_def allowedTypes_def
        fileSize_limit_def evidence_pdf_def)
  have schema: "insertSubmissionSchema (submission_form\<lparr>is_traineeId := user_id trainee_actor\<rparr>)"
    by (simp add: insertSubmissionSchema_def submission_form_def)
  have none: "assignmentsMap store_users = []"
    by (simp add: store_users_eq empty_store_def)
  then have unassigned: "\<not> (\<exists>a \<in> set (map_values (assignmentsMap store_users)).
            asg_traineeId a = Some (user_id trainee_actor) \<and>
            asg_unitId a = is_unitId submission_form)"
    by (simp add: map_values_def)
  have run: "snd (post_submissions 10 (Some trainee_actor) (Json (WellTyped submission_form))
         [evidence_pdf] store_users) = store_submitted"
    by (simp add: store_submitted_def)
  obtain submission fs s' where r:
    "post_submissions 10 (Some trainee_actor) (Json (WellTyped submission_form))
         [evidence_pdf] store_users = (Created (submission, fs), s')"
    "getSubmission s' (sub_id submission) = Some submission"
    "sub_status submission = ''pending''"
    "map file_facts fs =
       map (\<lambda>u. (sub_id submission, originalname u, mimetype u, path u, size u)) [evidence_pdf]"
    "notificationsMap s' = notificationsMap store_users"
    using submission_without_assignment_created_unnotified
      [OF reachable_store_users trainee upload schema unassigned, of 10]
    by blast
  have s': "s' = store_submitted" using r(1) run by simp
  have "\<exists>submission fs.
      fst (post_submissions 10 (Some trainee_actor) (Json (WellTyped submission_form))
            [evidence_pdf] store_users) = Created (submission, fs) \<and>
      getSubmission store_submitted (sub_id submission) = Some submission \<and>
      sub_status submission = ''pending'' \<and>
      map file_facts fs =
        [(sub_id submission, originalname evidence_pdf, mimetype evidence_pdf,
          path evidence_pdf, size evidence_pdf)]"
    using r(1-4) unfolding s' by (intro exI[of _ submission] exI[of _ fs]) simp
  then show ?thesis
    using reachable_store_users trainee upload schema none r(5) unfolding s' by blast
qed

section \<open>Verification of an assessment that does not exist\<close>

text \<open>
  C1. The claim is that a verification request naming an assessment that does not exist
  is answered 404 without any write. The handler answers 404, but it has stored the
  verification before looking the assessment up: here the internal verifier's request
  for assessment 999 leaves the store with verification 1 and the counter at 2.
\<close>

theorem post_verifications_missing_assessment_writes:
  "getAssessment store_users (iv_assessmentId verification_form) = None \<and>
   post_verifications 20 (Some internal_actor) (WellTyped verification_form) store_users
     = (NotFound, store_users\<lparr>verificationsMap := [(1, orphan_verification)],
                               verificationIdCounter := 2\<rparr>)"
  by (simp add: store_users_eq empty_store_def verifications_defs storage_defs Let_def
      internal_actor_def verification_form_def orphan_verification_def)

text \<open>
  C5. The same request is a confirmed verification by an internal verifier, made while an
  external verifier is registered. The verification is stored, the handler leaves with
  404 before it reaches the notifications, and no notification exists afterwards.
\<close>

theorem confirmed_verification_without_fanout:
  "getUsersByRole store_users ''external_verifier'' = [external_actor] \<and>
   role internal_actor = ''internal_verifier'' \<and>
   map_values (verificationsMap (snd (post_verifications 20 (Some internal_actor)
       (WellTyped verification_form) store_users))) = [orphan_verification] \<and>
   ver_status orphan_verification = ''confirmed'' \<and>
   notificationsMap (snd (post_verifications 20 (Some internal_actor)
       (WellTyped verification_form) store_users)) = []"
  by (simp add: store_users_eq empty_store_def verifications_defs storage_defs Let_def
      actor_defs verification_form_def orphan_verification_def)

section \<open>The read flag of notifications\<close>

lemma is_read_createNotification:
  "is_read (snd (createNotification p now s)) k \<Longrightarrow> is_read s k"
  by (auto simp: is_read_def getNotification_def createNotification_def Let_def
      map_get_map_set split: if_splits)

lemma is_read_notify_each: "is_read (notify_each now f us s) k \<Longrightarrow> is_read s k"
  unfolding notify_each_def
  by (induction us arbitrary: s) (auto dest: is_read_createNotification)

lemma is_read_cong: "notificationsMap s' = notificationsMap s \<Longrightarrow> is_read s' k = is_read s k"
  by (simp add: is_read_def getNotification_def)

lemma is_read_logActivity: "is_read (logActivity u a d now s) k = is_read s k"
  by (rule is_read_cong) (simp add: logActivity_def createActivityLog_def Let_def)

lemma is_read_createUser: "is_read (snd (createUser p now s)) k = is_read s k"
  by (rule is_read_cong) (simp add: createUser_def Let_def)

lemma is_read_createDepartment: "is_read (snd (createDepartment p s)) k = is_read s k"
  by (rule is_read_cong) (simp add: createDepartment_def Let_def)

lemma is_read_createCourse: "is_read (snd (createCourse p s)) k = is_read s k"
  by (rule is_read_cong) (simp add: createCourse_def Let_def)

lemma is_read_createClassIntake: "is_read (snd (createClassIntake p s)) k = is_read s k"
  by (rule is_read_cong) (simp add: createClassIntake_def Let_def)

lemma is_read_createModule: "is_read (snd (createModule p s)) k = is_read s k"
  by (rule is_read_cong) (simp add: createModule_def Let_def)

lemma is_read_createAssignment: "is_read (snd (createAssignment p now s)) k = is_read s k"
  by (rule is_read_cong) (simp add: createAssignment_def Let_def)

lemma is_read_createSubmission: "is_read (snd (createSubmission p now s)) k = is_read s k"
  by (rule is_read_cong) (simp add: createSubmission_def Let_def)

lemma is_read_createAssessment: "is_read (snd (createAssessment p now s)) k = is_read s k"
  by (rule is_read_cong) (simp add: createAssessment_def Let_def)

lemma is_read_createVerification: "is_read (snd (createVerification p now s)) k = is_read s k"
  by (rule is_read_cong) (simp add: createVerification_def Let_def)

lemma is_read_updateSubmission:
  "updateSubmission i d s = Some (r, s') \<Longrightarrow> is_read s' k = is_read s k"
  by (auto simp: updateSubmission_def split: option.splits intro!: is_read_cong)

lemma is_read_updateUser:
  "updateUser i d s = Some (r, s') \<Longrightarrow> is_read s' k = is_read s k"
  by (auto simp: updateUser_def split: option.splits intro!: is_read_cong)

lemma is_read_attach_files: "is_read (attach_files now i files s) k = is_read s k"
proof -
  have "notificationsMap (attach_files now i files s) = notificationsMap s"
    unfolding attach_files_def
    by (induction files arbitrary: s) (simp_all add: createSubmissionFile_def Let_def)
  then show ?thesis by (rule is_read_cong)
qed

lemma is_read_post_users_deactivate:
  "is_read (snd (post_users_deactivate now usr i s)) k \<Longrightarrow> is_read s k"
  by (auto simp: post_users_deactivate_def updateUser_def notifications_logActivity
      is_read_def getNotification_def split: option.splits if_splits)

lemma is_read_post_assignments:
  "is_read (snd (post_assignments now usr b s)) k \<Longrightarrow> is_read s k"
  by (auto simp: post_assignments_def assignments_handler_def Let_def split_def
      is_read_logActivity is_read_createAssignment
      split: option.splits body.splits if_splits dest!: is_read_createNotification)

lemma is_read_post_submissions:
  "is_read (snd (post_submissions now usr d files s)) k \<Longrightarrow> is_read s k"
  by (auto simp: post_submissions_def submissions_handler_def submissions_create_def
      notify_assessor_def Let_def split_def is_read_logActivity is_read_attach_files
      is_read_createSubmission
      split: option.splits body.splits form_field.splits if_splits
      dest!: is_read_createNotification)

lemma is_read_post_assessments:
  "is_read (snd (post_assessments now usr b s)) k \<Longrightarrow> is_read s k"
  by (auto simp: post_assessments_def assessments_handler_def assessments_create_def
      assessment_notifications_def Let_def split_def is_read_logActivity
      is_read_createAssessment
      split: option.splits body.splits if_splits
      dest!: is_read_notify_each is_read_createNotification dest: is_read_updateSubmission)

lemma is_read_post_verifications:
  "is_read (snd (post_verifications now usr b s)) k \<Longrightarrow> is_read s k"
  by (auto simp: post_verifications_def verifications_handler_def
      verification_notifications_def Let_def split_def is_read_logActivity
      is_read_createVerification
      split: option.splits body.splits if_splits
      dest!: is_read_notify_each is_read_createNotification)

lemma post_notifications_read_Ok:
  assumes "post_notifications_read usr i s = (Ok, s')"
  shows "\<exists>actor n. usr = Some actor \<and> getNotification s i = Some n \<and>
           notif_userId n = user_id actor \<and>
           getNotification s' i = Some (n\<lparr>notif_isRead := True\<rparr>)"
  using assms
  by (auto simp: post_notifications_read_def updateNotification_def getNotification_def
      map_get_map_set split: option.splits if_splits)

lemma post_notifications_read_flips:
  assumes "is_read (snd (post_notifications_read usr i s)) k" "\<not> is_read s k"
  shows "k = i \<and> (\<exists>actor n. usr = Some actor \<and> getNotification s i = Some n \<and>
           notif_userId n = user_id actor)"
  using assms
  by (auto simp: post_notifications_read_def updateNotification_def getNotification_def
      is_read_def map_get_map_set split: option.splits if_splits)

lemma handle_flips:
  assumes "is_read (handle now usr r s) k" "\<not> is_read s k"
  shows "r = Post_notifications_read k \<and>
         (\<exists>actor n. usr = Some actor \<and> getNotification s k = Some n \<and>
            notif_userId n = user_id actor)"
proof (cases r)
  case (Post_notifications_read i)
  then show ?thesis using assms post_notifications_read_flips[of usr i s k] by auto
next
  case (Log_only act details)
  then show ?thesis using assms by (auto simp: is_read_logActivity split: option.splits)
qed (use assms in \<open>auto dest: is_read_post_users_deactivate is_read_post_assignments
      is_read_post_submissions is_read_post_assessments is_read_post_verifications\<close>)

text \<open>
  C10. (1) Whatever the payload, also one with \<^verbatim>\<open>isRead: true\<close>,
  \<^verbatim>\<open>createNotification\<close> returns a notification that is not read and stores
  it under its identifier. (2) If a step of the system (a route or a storage call of
  start-up and registration) leaves a notification read that was not read before (or
  did not exist), the step is the mark-as-read route for that notification, called by
  the user it is addressed to. (3) The mark-as-read route answers 200 only to the
  addressee of an existing notification, and then the notification is stored as read.
\<close>

theorem notification_read_flag:
  "(\<forall>p now s. \<not> notif_isRead (fst (createNotification p now s)) \<and>
      getNotification (snd (createNotification p now s))
        (notif_id (fst (createNotification p now s))) = Some (fst (createNotification p now s))) \<and>
   (\<forall>now a s k. is_read (step now a s) k \<and> \<not> is_read s k \<longrightarrow>
      (\<exists>actor n. a = Http (Some actor) (Post_notifications_read k) \<and>
         getNotification s k = Some n \<and> notif_userId n = user_id actor)) \<and>
   (\<forall>usr i s s'. post_notifications_read usr i s = (Ok, s') \<longrightarrow>
      (\<exists>actor n. usr = Some actor \<and> getNotification s i = Some n \<and>
         notif_userId n = user_id actor \<and>
         getNotification s' i = Some (n\<lparr>notif_isRead := True\<rparr>)))"
proof (intro conjI allI impI)
  fix p now s
  show "\<not> notif_isRead (fst (createNotification p now s))"
    by (simp add: createNotification_def Let_def)
  show "getNotification (snd (createNotification p now s))
        (notif_id (fst (createNotification p now s))) = Some (fst (createNotification p now s))"
    by (simp add: createNotification_def Let_def getNotification_def map_get_map_set)
next
  fix now a s k
  assume flip: "is_read (step now a s) k \<and> \<not> is_read s k"
  show "\<exists>actor n. a = Http (Some actor) (Post_notifications_read k) \<and>
         getNotification s k = Some n \<and> notif_userId n = user_id actor"
  proof (cases a)
    case (Http usr r)
    then show ?thesis using flip handle_flips[of now usr r s k] by auto
  qed (use flip in \<open>simp_all add: is_read_createUser is_read_createDepartment
        is_read_createCourse is_read_createClassIntake is_read_createModule\<close>)
next
  fix usr i s s'
  assume "post_notifications_read usr i s = (Ok, s')"
  then show "\<exists>actor n. usr = Some actor \<and> getNotification s i = Some n \<and>
         notif_userId n = user_id actor \<and>
         getNotification s' i = Some (n\<lparr>notif_isRead := True\<rparr>)"
    by (rule post_notifications_read_Ok)
qed

theorem notification_read_flag_witness:
  "\<not> is_read store_assessed 2 \<and>
   is_read (step 30 (Http (Some trainee_actor) (Post_notifications_read 2)) store_assessed) 2 \<and>
   (\<exists>n. getNotification store_assessed 2 = Some n \<and> notif_userId n = user_id trainee_actor) \<and>
   in_isRead read_payload = Some True \<and>
   \<not> notif_isRead (fst (createNotification read_payload 40 store_assessed))"
proof -
  have before: "\<not> is_read store_assessed 2"
    by (simp add: is_read_def run_defs)
  have after: "is_read (step 30 (Http (Some trainee_actor) (Post_notifications_read 2))
                 store_assessed) 2"
    by (simp add: is_read_def post_notifications_read_def run_defs)
  have "\<exists>actor n. Http (Some trainee_actor) (Post_notifications_read 2)
            = Http (Some actor) (Post_notifications_read 2) \<and>
          getNotification store_assessed 2 = Some n \<and> notif_userId n = user_id actor"
    using notification_read_flag before after by blast
  then have addressee:
    "\<exists>n. getNotification store_assessed 2 = Some n \<and> notif_userId n = user_id trainee_actor"
    by auto
  have "\<not> notif_isRead (fst (createNotification read_payload 40 store_assessed))"
    using notification_read_flag by blast
  then show ?thesis
    using before after addressee by (simp add: read_payload_def)
qed

section \<open>The mean turnaround of the trainee-performance report\<close>












section \<open>Acceptance of uploaded files\<close>

lemma upload_scan_None:
  "upload_scan n files = None \<longleftrightarrow>
     length files \<le> n \<and> (\<forall>f \<in> set files. fileFilter f \<and> size f \<le> fileSize_limit)"
  by (induction n files rule: upload_scan.induct) auto

lemma upload_scan_oversize:
  "length files < n \<Longrightarrow> \<forall>f \<in> set files. fileFilter f \<and> size f \<le> fileSize_limit \<Longrightarrow>
   fileFilter file \<Longrightarrow> size file > fileSize_limit \<Longrightarrow>
   upload_scan n (files @ file # rest) = Some LIMIT_FILE_SIZE"
  by (induction n files rule: upload_scan.induct) auto

text \<open>
  C7, as amended. The upload is accepted exactly when it has at most ten files and each
  file has an allowed type and at most 20 * 1024 * 1024 bytes. After fewer than ten
  acceptable files, a file of an allowed type with exactly 20 * 1024 * 1024 bytes is
  accepted, and one with a byte more is refused with the error of the size limit. A
  refused upload of a trainee ends the request with that error and the store it found:
  no submission has been created.
\<close>

theorem upload_accepts_within_limits:
  "(upload_array files = None \<longleftrightarrow>
      length files \<le> 10 \<and>
      (\<forall>f \<in> set files. mimetype f \<in> set allowedTypes \<and> size f \<le> 20 * 1024 * 1024)) \<and>
   (length files < 10 \<and>
    (\<forall>f \<in> set files. mimetype f \<in> set allowedTypes \<and> size f \<le> 20 * 1024 * 1024) \<and>
    mimetype file \<in> set allowedTypes \<longrightarrow>
      (size file = 20 * 1024 * 1024 \<longrightarrow> upload_array (files @ [file]) = None) \<and>
      (size file = 20 * 1024 * 1024 + 1 \<longrightarrow>
         upload_array (files @ [file]) = Some LIMIT_FILE_SIZE)) \<and>
   (\<forall>err. upload_array files = Some err \<and> requireRole [''trainee''] usr \<longrightarrow>
      post_submissions now usr submissionData files s = (UploadError err, s))"
proof (intro conjI impI allI)
  show "upload_array files = None \<longleftrightarrow>
      length files \<le> 10 \<and>
      (\<forall>f \<in> set files. mimetype f \<in> set allowedTypes \<and> size f \<le> 20 * 1024 * 1024)"
    by (simp add: upload_array_def upload_scan_None maxCount_def fileFilter_def
        fileSize_limit_def)
next
  assume "length files < 10 \<and>
    (\<forall>f \<in> set files. mimetype f \<in> set allowedTypes \<and> size f \<le> 20 * 1024 * 1024) \<and>
    mimetype file \<in> set allowedTypes" and "size file = 20 * 1024 * 1024"
  then show "upload_array (files @ [file]) = None"
    by (simp add: upload_array_def upload_scan_None maxCount_def fileFilter_def
        fileSize_limit_def)
next
  assume "length files < 10 \<and>
    (\<forall>f \<in> set files. mimetype f \<in> set allowedTypes \<and> size f \<le> 20 * 1024 * 1024) \<and>
    mimetype file \<in> set allowedTypes" and "size file = 20 * 1024 * 1024 + 1"
  then show "upload_array (files @ [file]) = Some LIMIT_FILE_SIZE"
    unfolding upload_array_def
    by (intro upload_scan_oversize) (simp_all add: maxCount_def fileFilter_def fileSize_limit_def)
next
  fix err
  assume "upload_array files = Some err \<and> requireRole [''trainee''] usr"
  then show "post_submissions now usr submissionData files s = (UploadError err, s)"
    by (auto simp: post_submissions_def requireRole_def split: option.splits)
qed

text \<open>
  C7, as stated, fails: the eleventh file of an upload has an allowed type and one byte,
  and the upload is refused as a whole, for the count given to
  \<^verbatim>\<open>upload.array('files', 10)\<close>.
\<close>

theorem eleventh_file_rejected:
  "mimetype small_pdf \<in> set allowedTypes \<and> size small_pdf \<le> 20 * 1024 * 1024 \<and>
   post_submissions 10 (Some trainee_actor) (Json (WellTyped submission_form))
     (replicate 11 small_pdf) store_users = (UploadError LIMIT_UNEXPECTED_FILE, store_users)"
  by (simp add: post_submissions_def requireRole_def trainee_actor_def upload_array_def
      maxCount_def fileFilter_def allowedTypes_def fileSize_limit_def small_pdf_def
      eval_nat_numeral)

theorem upload_accepts_within_limits_witness:
  "upload_array [evidence_pdf] = None \<and> size evidence_pdf = 20 * 1024 * 1024 \<and>
   upload_array [evidence_pdf\<lparr>size := 20 * 1024 * 1024 + 1\<rparr>] = Some LIMIT_FILE_SIZE \<and>
   post_submissions 10 (Some trainee_actor) (Json (WellTyped submission_form))
     [evidence_pdf\<lparr>size := 20 * 1024 * 1024 + 1\<rparr>] store_users
     = (UploadError LIMIT_FILE_SIZE, store_users)"
proof -
  have mt: "mimetype evidence_pdf \<in> set allowedTypes"
    by (simp add: evidence_pdf_def allowedTypes_def)
  have sz: "size evidence_pdf = 20 * 1024 * 1024" by (simp add: evidence_pdf_def)
  have role: "requireRole [''trainee''] (Some trainee_actor)"
    by (simp add: requireRole_def trainee_actor_def)
  have a: "upload_array [evidence_pdf] = None"
    using upload_accepts_within_limits[of "[]" evidence_pdf] mt sz by simp
  have b: "upload_array [evidence_pdf\<lparr>size := 20 * 1024 * 1024 + 1\<rparr>] = Some LIMIT_FILE_SIZE"
    using upload_accepts_within_limits[of "[]" "evidence_pdf\<lparr>size := 20 * 1024 * 1024 + 1\<rparr>"] mt
    by simp
  have c: "post_submissions 10 (Some trainee_actor) (Json (WellTyped submission_form))
     [evidence_pdf\<lparr>size := 20 * 1024 * 1024 + 1\<rparr>] store_users
     = (UploadError LIMIT_FILE_SIZE, store_users)"
    using upload_accepts_within_limits
      [of "[evidence_pdf\<lparr>size := 20 * 1024 * 1024 + 1\<rparr>]" _ "Some trainee_actor"] b role
    by blast
  show ?thesis using a b c sz by simp
qed

section \<open>The hierarchy queries\<close>

lemma catalog_storage:
  "catalog (snd (createUser pu now s)) = catalog s"
  "catalog (snd (createDepartment pd s)) = catalog s"
  "catalog (snd (createAssignment pa now s)) = catalog s"
  "catalog (snd (createSubmission ps now s)) = catalog s"
  "catalog (snd (createSubmissionFile pf now s)) = catalog s"
  "catalog (snd (createAssessment pas now s)) = catalog s"
  "catalog (snd (createVerification pv now s)) = catalog s"
  "catalog (snd (createNotification pn now s)) = catalog s"
  "catalog (logActivity u a d now s) = catalog s"
  by (simp_all add: catalog_def createUser_def createDepartment_def createAssignment_def
      createSubmission_def createSubmissionFile_def createAssessment_def
      createVerification_def createNotification_def logActivity_def createActivityLog_def
      Let_def)

lemma catalog_notify_each: "catalog (notify_each now f us s) = catalog s"
  using notify_each_frame[of now f us s] by (auto simp: catalog_def)

lemma catalog_attach_files: "catalog (attach_files now i files s) = catalog s"
  using attach_files_frame[of now i files s] by (auto simp: catalog_def)

lemmas catalog_simps = catalog_storage catalog_notify_each catalog_attach_files

lemma catalog_handle: "catalog (handle now usr r s) = catalog s"
proof (cases r)
  case (Post_users_deactivate i)
  then show ?thesis
    by (auto simp: post_users_deactivate_def updateUser_def catalog_simps
        split: option.splits) (simp add: catalog_def)
next
  case (Post_assignments b)
  then show ?thesis
    by (auto simp: post_assignments_def assignments_handler_def Let_def split_def
        catalog_simps split: option.splits body.splits)
next
  case (Post_submissions d files)
  then show ?thesis
    by (auto simp: post_submissions_def submissions_handler_def submissions_create_def
        notify_assessor_def Let_def split_def catalog_simps
        split: option.splits body.splits form_field.splits)
next
  case (Post_assessments b)
  obtain resp s' where call: "post_assessments now usr b s = (resp, s')"
    by (cases "post_assessments now usr b s")
  then have "catalog s' = catalog s"
  proof (cases rule: post_assessments_cases)
    case refused
    then show ?thesis by simp
  next
    case (accepted actor b' submission)
    have "\<And>c m d. catalog (s\<lparr>assessmentIdCounter := c, assessmentsMap := m,
                               submissionsMap := d\<rparr>) = catalog s"
      by (simp add: catalog_def)
    then show ?thesis
      using accepted(6) assessments_create_eq[OF accepted(5), of now actor]
      by (auto simp: Let_def catalog_simps assessment_notifications_def)
  qed
  then show ?thesis using Post_assessments call by simp
next
  case (Post_verifications b)
  then show ?thesis
    by (auto simp: post_verifications_def verifications_handler_def
        verification_notifications_def Let_def split_def catalog_simps
        split: option.splits body.splits)
next
  case (Post_notifications_read i)
  then show ?thesis
    by (auto simp: post_notifications_read_def updateNotification_def catalog_def
        split: option.splits)
next
  case (Log_only act details)
  then show ?thesis by (auto simp: catalog_simps split: option.splits)
qed

lemma catalog_inv_cong: "catalog s' = catalog s \<Longrightarrow> catalog_inv s' = catalog_inv s"
  by (simp add: catalog_def catalog_inv_def)

lemma catalog_inv_step: "catalog_inv s \<Longrightarrow> catalog_inv (step now a s)"
proof (cases a)
  case (Http usr r)
  then show "catalog_inv s \<Longrightarrow> ?thesis"
    using catalog_inv_cong[OF catalog_handle[of now usr r s]] by simp
next
  case (Store_createUser p)
  then show "catalog_inv s \<Longrightarrow> ?thesis"
    using catalog_inv_cong[OF catalog_storage(1)[of p now s]] by simp
next
  case (Store_createDepartment p)
  then show "catalog_inv s \<Longrightarrow> ?thesis"
    using catalog_inv_cong[OF catalog_storage(2)[of p s]] by simp
next
  case (Store_createCourse p)
  then show "catalog_inv s \<Longrightarrow> ?thesis"
    by (simp add: catalog_inv_def createCourse_def Let_def ids_ok_create)
next
  case (Store_createClassIntake p)
  then show "catalog_inv s \<Longrightarrow> ?thesis"
    by (simp add: catalog_inv_def createClassIntake_def Let_def ids_ok_create)
next
  case (Store_createModule p)
  then show "catalog_inv s \<Longrightarrow> ?thesis"
    by (simp add: catalog_inv_def createModule_def Let_def ids_ok_create)
qed

lemma reachable_catalog_inv: "reachable s \<Longrightarrow> catalog_inv s"
proof (induction rule: reachable.induct)
  case initial
  show ?case by (simp add: catalog_inv_def empty_store_def ids_ok_def)
next
  case (after s now a)
  then show ?case by (simp add: catalog_inv_step)
qed

lemma create_all_createCourse:
  assumes "ids_ok course_id (coursesMap s) (courseIdCounter s)"
    and "create_all createCourse cps s = (cs, s')"
  shows "map_values (coursesMap s') = map_values (coursesMap s) @ cs \<and>
         map course_departmentId cs = map ic_departmentId cps \<and>
         map course_name cs = map ic_name cps \<and>
         classIntakesMap s' = classIntakesMap s \<and>
         classIntakeIdCounter s' = classIntakeIdCounter s \<and>
         modulesMap s' = modulesMap s \<and> moduleIdCounter s' = moduleIdCounter s"
  using assms
proof (induction cps arbitrary: s cs)
  case Nil
  then show ?case by simp
next
  case (Cons p ps)
  let ?c = "fst (createCourse p s)" and ?s1 = "snd (createCourse p s)"
  obtain rs s'' where rest: "create_all createCourse ps ?s1 = (rs, s'')"
    by (cases "create_all createCourse ps ?s1")
  then have rs: "create_all createCourse ps ?s1 = (rs, s')" "cs = ?c # rs"
    using Cons.prems(2) by (auto simp: Let_def split_def)
  have m1: "coursesMap ?s1 = coursesMap s @ [(courseIdCounter s, ?c)]"
    using Cons.prems(1) by (simp add: createCourse_def Let_def map_set_fresh ids_ok_fresh)
  have "ids_ok course_id (coursesMap ?s1) (courseIdCounter ?s1)"
    using Cons.prems(1) ids_ok_create[of course_id "coursesMap s" "courseIdCounter s" ?c]
    by (simp add: createCourse_def Let_def)
  from Cons.IH[OF this rs(1)] show ?case
    by (simp add: rs(2) m1 map_values_def) (simp add: createCourse_def Let_def)
qed

lemma create_all_createClassIntake:
  assumes "ids_ok intake_id (classIntakesMap s) (classIntakeIdCounter s)"
    and "create_all createClassIntake ips s = (is, s')"
  shows "map_values (classIntakesMap s') = map_values (classIntakesMap s) @ is \<and>
         map intake_courseId is = map ici_courseId ips \<and>
         map intake_name is = map ici_name ips \<and>
         coursesMap s' = coursesMap s \<and> courseIdCounter s' = courseIdCounter s \<and>
         modulesMap s' = modulesMap s \<and> moduleIdCounter s' = moduleIdCounter s"
  using assms
proof (induction ips arbitrary: s "is")
  case Nil
  then show ?case by simp
next
  case (Cons p ps)
  let ?c = "fst (createClassIntake p s)" and ?s1 = "snd (createClassIntake p s)"
  obtain rs s'' where rest: "create_all createClassIntake ps ?s1 = (rs, s'')"
    by (cases "create_all createClassIntake ps ?s1")
  then have rs: "create_all createClassIntake ps ?s1 = (rs, s')" "is = ?c # rs"
    using Cons.prems(2) by (auto simp: Let_def split_def)
  have m1: "classIntakesMap ?s1 = classIntakesMap s @ [(classIntakeIdCounter s, ?c)]"
    using Cons.prems(1) by (simp add: createClassIntake_def Let_def map_set_fresh ids_ok_fresh)
  have "ids_ok intake_id (classIntakesMap ?s1) (classIntakeIdCounter ?s1)"
    using Cons.prems(1)
      ids_ok_create[of intake_id "classIntakesMap s" "classIntakeIdCounter s" ?c]
    by (simp add: createClassIntake_def Let_def)
  from Cons.IH[OF this rs(1)] show ?case
    by (simp add: rs(2) m1 map_values_def) (simp add: createClassIntake_def Let_def)
qed

lemma create_all_createModule:
  assumes "ids_ok mod_id (modulesMap s) (moduleIdCounter s)"
    and "create_all createModule mps s = (ms, s')"
  shows "map_values (modulesMap s') = map_values (modulesMap s) @ ms \<and>
         map mod_courseId ms = map im_courseId mps \<and>
         map mod_name ms = map im_name mps \<and>
         coursesMap s' = coursesMap s \<and> courseIdCounter s' = courseIdCounter s \<and>
         classIntakesMap s' = classIntakesMap s \<and>
         classIntakeIdCounter s' = classIntakeIdCounter s"
  using assms
proof (induction mps arbitrary: s ms)
  case Nil
  then show ?case by simp
next
  case (Cons p ps)
  let ?c = "fst (createModule p s)" and ?s1 = "snd (createModule p s)"
  obtain rs s'' where rest: "create_all createModule ps ?s1 = (rs, s'')"
    by (cases "create_all createModule ps ?s1")
  then have rs: "create_all createModule ps ?s1 = (rs, s')" "ms = ?c # rs"
    using Cons.prems(2) by (auto simp: Let_def split_def)
  have m1: "modulesMap ?s1 = modulesMap s @ [(moduleIdCounter s, ?c)]"
    using Cons.prems(1) by (simp add: createModule_def Let_def map_set_fresh ids_ok_fresh)
  have "ids_ok mod_id (modulesMap ?s1) (moduleIdCounter ?s1)"
    using Cons.prems(1) ids_ok_create[of mod_id "modulesMap s" "moduleIdCounter s" ?c]
    by (simp add: createModule_def Let_def)
  from Cons.IH[OF this rs(1)] show ?case
    by (simp add: rs(2) m1 map_values_def) (simp add: createModule_def Let_def)
qed

lemma departments_storage:
  "departments (snd (createUser pu now s)) = departments s"
  "departments (snd (createCourse pc s)) = departments s"
  "departments (snd (createClassIntake pci s)) = departments s"
  "departments (snd (createModule pm s)) = departments s"
  "departments (snd (createAssignment pa now s)) = departments s"
  "departments (snd (createSubmission ps now s)) = departments s"
  "departments (snd (createSubmissionFile pf now s)) = departments s"
  "departments (snd (createAssessment pas now s)) = departments s"
  "departments (snd (createVerification pv now s)) = departments s"
  "departments (snd (createNotification pn now s)) = departments s"
  "departments (logActivity u a d now s) = departments s"
  by (simp_all add: departments_def createUser_def createCourse_def createClassIntake_def
      createModule_def createAssignment_def createSubmission_def createSubmissionFile_def
      createAssessment_def createVerification_def createNotification_def logActivity_def
      createActivityLog_def Let_def)

lemma departments_notify_each: "departments (notify_each now f us s) = departments s"
  using notify_each_frame[of now f us s] by (auto simp: departments_def)

lemma departments_attach_files: "departments (attach_files now i files s) = departments s"
  using attach_files_frame[of now i files s] by (auto simp: departments_def)

lemmas departments_simps = departments_storage departments_notify_each
  departments_attach_files

lemma departments_handle: "departments (handle now usr r s) = departments s"
proof (cases r)
  case (Post_users_deactivate i)
  then show ?thesis
    by (auto simp: post_users_deactivate_def updateUser_def departments_simps
        split: option.splits) (simp add: departments_def)
next
  case (Post_assignments b)
  then show ?thesis
    by (auto simp: post_assignments_def assignments_handler_def Let_def split_def
        departments_simps split: option.splits body.splits)
next
  case (Post_submissions d files)
  then show ?thesis
    by (auto simp: post_submissions_def submissions_handler_def submissions_create_def
        notify_assessor_def Let_def split_def departments_simps
        split: option.splits body.splits form_field.splits)
next
  case (Post_assessments b)
  obtain resp s' where call: "post_assessments now usr b s = (resp, s')"
    by (cases "post_assessments now usr b s")
  then have "departments s' = departments s"
  proof (cases rule: post_assessments_cases)
    case refused
    then show ?thesis by simp
  next
    case (accepted actor b' submission)
    have "\<And>c m d. departments (s\<lparr>assessmentIdCounter := c, assessmentsMap := m,
                                   submissionsMap := d\<rparr>) = departments s"
      by (simp add: departments_def)
    then show ?thesis
      using accepted(6) assessments_create_eq[OF accepted(5), of now actor]
      by (auto simp: Let_def departments_simps assessment_notifications_def)
  qed
  then show ?thesis using Post_assessments call by simp
next
  case (Post_verifications b)
  then show ?thesis
    by (auto simp: post_verifications_def verifications_handler_def
        verification_notifications_def Let_def split_def departments_simps
        split: option.splits body.splits)
next
  case (Post_notifications_read i)
  then show ?thesis
    by (auto simp: post_notifications_read_def updateNotification_def departments_def
        split: option.splits)
next
  case (Log_only act details)
  then show ?thesis by (auto simp: departments_simps split: option.splits)
qed

lemma departments_ok_cong:
  "departments s' = departments s \<Longrightarrow>
   ids_ok dept_id (departmentsMap s) (departmentIdCounter s) \<Longrightarrow>
   ids_ok dept_id (departmentsMap s') (departmentIdCounter s')"
  by (simp add: departments_def)

lemma departments_ok_step:
  assumes "ids_ok dept_id (departmentsMap s) (departmentIdCounter s)"
  shows "ids_ok dept_id (departmentsMap (step now a s)) (departmentIdCounter (step now a s))"
proof (cases a)
  case (Http usr r)
  then show ?thesis
    using departments_ok_cong[OF departments_handle[of now usr r s] assms] by simp
next
  case (Store_createUser p)
  then show ?thesis
    using departments_ok_cong[OF departments_storage(1)[of p now s] assms] by simp
next
  case (Store_createDepartment p)
  then show ?thesis
    using assms by (simp add: createDepartment_def Let_def ids_ok_create)
next
  case (Store_createCourse p)
  then show ?thesis
    using departments_ok_cong[OF departments_storage(2)[of p s] assms] by simp
next
  case (Store_createClassIntake p)
  then show ?thesis
    using departments_ok_cong[OF departments_storage(3)[of p s] assms] by simp
next
  case (Store_createModule p)
  then show ?thesis
    using departments_ok_cong[OF departments_storage(4)[of p s] assms] by simp
qed

lemma reachable_departments_ok:
  "reachable s \<Longrightarrow> ids_ok dept_id (departmentsMap s) (departmentIdCounter s)"
proof (induction rule: reachable.induct)
  case initial
  show ?case by (simp add: empty_store_def ids_ok_def)
next
  case (after s now a)
  from after.IH show ?case by (rule departments_ok_step)
qed

lemma ids_ok_mem_get: "ids_ok idf m c \<Longrightarrow> (k, v) \<in> set m \<Longrightarrow> map_get m k = Some v"
  by (simp add: map_get_def ids_ok_distinct)

lemma ids_ok_get_None: "ids_ok idf m c \<Longrightarrow> c \<le> k \<Longrightarrow> map_get m k = None"
  by (fastforce simp: map_get_def ids_ok_def map_of_eq_None_iff)

lemma create_all_createCourse_stored:
  assumes "ids_ok course_id (coursesMap s) (courseIdCounter s)"
    and "create_all createCourse cps s = (cs, s')"
  shows "coursesMap s' = coursesMap s @ map (\<lambda>c. (course_id c, c)) cs \<and>
         ids_ok course_id (coursesMap s') (courseIdCounter s') \<and>
         (\<forall>c \<in> set cs. courseIdCounter s \<le> course_id c) \<and>
         map course_fields cs = cps \<and>
         departments s' = departments s"
  using assms
proof (induction cps arbitrary: s cs)
  case Nil
  then show ?case by simp
next
  case (Cons p ps)
  let ?c = "fst (createCourse p s)" and ?s1 = "snd (createCourse p s)"
  obtain rs s'' where rest: "create_all createCourse ps ?s1 = (rs, s'')"
    by (cases "create_all createCourse ps ?s1")
  then have rs: "create_all createCourse ps ?s1 = (rs, s')" "cs = ?c # rs"
    using Cons.prems(2) by (auto simp: Let_def split_def)
  have m1: "coursesMap ?s1 = coursesMap s @ [(courseIdCounter s, ?c)]"
    using Cons.prems(1) by (simp add: createCourse_def Let_def map_set_fresh ids_ok_fresh)
  have c1: "course_id ?c = courseIdCounter s" "course_fields ?c = p"
      "courseIdCounter ?s1 = courseIdCounter s + 1"
    by (simp_all add: createCourse_def Let_def course_fields_def)
  have "ids_ok course_id (coursesMap ?s1) (courseIdCounter ?s1)"
    using Cons.prems(1) ids_ok_create[of course_id "coursesMap s" "courseIdCounter s" ?c]
    by (simp add: createCourse_def Let_def)
  from Cons.IH[OF this rs(1)] show ?case
    by (auto simp: rs(2) m1 c1 departments_storage)
qed

lemma create_all_createClassIntake_stored:
  assumes "create_all createClassIntake ips s = (is, s')"
  shows "map intake_fields is = ips \<and> departments s' = departments s"
  using assms
proof (induction ips arbitrary: s "is")
  case Nil
  then show ?case by simp
next
  case (Cons p ps)
  let ?c = "fst (createClassIntake p s)" and ?s1 = "snd (createClassIntake p s)"
  obtain rs s'' where rest: "create_all createClassIntake ps ?s1 = (rs, s'')"
    by (cases "create_all createClassIntake ps ?s1")
  then have rs: "create_all createClassIntake ps ?s1 = (rs, s')" "is = ?c # rs"
    using Cons.prems by (auto simp: Let_def split_def)
  have c1: "intake_fields ?c = p"
    by (simp add: createClassIntake_def Let_def intake_fields_def)
  from Cons.IH[OF rs(1)] show ?case
    by (simp add: rs(2) c1 departments_storage)
qed

lemma create_all_createModule_stored:
  assumes "create_all createModule mps s = (ms, s')"
  shows "map module_fields ms = map with_credits mps \<and> departments s' = departments s"
  using assms
proof (induction mps arbitrary: s ms)
  case Nil
  then show ?case by simp
next
  case (Cons p ps)
  let ?c = "fst (createModule p s)" and ?s1 = "snd (createModule p s)"
  obtain rs s'' where rest: "create_all createModule ps ?s1 = (rs, s'')"
    by (cases "create_all createModule ps ?s1")
  then have rs: "create_all createModule ps ?s1 = (rs, s')" "ms = ?c # rs"
    using Cons.prems by (auto simp: Let_def split_def)
  have c1: "module_fields ?c = with_credits p"
    by (simp add: createModule_def Let_def module_fields_def with_credits_def)
  from Cons.IH[OF rs(1)] show ?case
    by (simp add: rs(2) c1 departments_storage)
qed

lemma hierarchy_queries_append:
  assumes reach: "reachable s"
    and dept: "createDepartment dp s = (department, s0)"
    and courses: "create_all createCourse cps s0 = (cs, s1)"
    and intakes: "create_all createClassIntake ips s1 = (is, s2)"
    and modules: "create_all createModule mps s2 = (ms, s3)"
  shows "map_values (coursesMap s3) = map_values (coursesMap s) @ cs"
    and "map_values (classIntakesMap s3) = map_values (classIntakesMap s) @ is"
    and "map_values (modulesMap s3) = map_values (modulesMap s) @ ms"
    and "coursesMap s3 = coursesMap s @ map (\<lambda>c. (course_id c, c)) cs"
    and "ids_ok course_id (coursesMap s3) (courseIdCounter s3)"
    and "\<forall>c \<in> set cs. courseIdCounter s \<le> course_id c"
    and "departments s3 = departments s0"
proof -
  have s0: "catalog s0 = catalog s"
    using dept catalog_storage(2)[of dp s] by simp
  have inv: "catalog_inv s0"
    using reachable_catalog_inv[OF reach] catalog_inv_cong[OF s0] by simp
  then have i0: "ids_ok course_id (coursesMap s0) (courseIdCounter s0)"
    by (simp add: catalog_inv_def)
  note c = create_all_createCourse[OF i0 courses]
  note c' = create_all_createCourse_stored[OF i0 courses]
  have i1: "ids_ok intake_id (classIntakesMap s1) (classIntakeIdCounter s1)"
    using inv c by (simp add: catalog_inv_def)
  note i = create_all_createClassIntake[OF i1 intakes]
  have i2: "ids_ok mod_id (modulesMap s2) (moduleIdCounter s2)"
    using inv c i by (simp add: catalog_inv_def)
  note m = create_all_createModule[OF i2 modules]
  show "map_values (coursesMap s3) = map_values (coursesMap s) @ cs"
    using c i m s0 by (simp add: catalog_def)
  show "map_values (classIntakesMap s3) = map_values (classIntakesMap s) @ is"
    using c i m s0 by (simp add: catalog_def)
  show "map_values (modulesMap s3) = map_values (modulesMap s) @ ms"
    using c i m s0 by (simp add: catalog_def)
  show "coursesMap s3 = coursesMap s @ map (\<lambda>c. (course_id c, c)) cs"
    using c' i m s0 by (simp add: catalog_def)
  from c' have "ids_ok course_id (coursesMap s1) (courseIdCounter s1)"
    by blast
  then show "ids_ok course_id (coursesMap s3) (courseIdCounter s3)"
    using i m by simp
  show "\<forall>c \<in> set cs. courseIdCounter s \<le> course_id c"
    using c' s0 by (simp add: catalog_def)
  show "departments s3 = departments s0"
    using c' create_all_createClassIntake_stored[OF intakes]
      create_all_createModule_stored[OF modules] by simp
qed

text \<open>
  C9, as stated, fails. \<^verbatim>\<open>MemStorage\<close> stores a course without looking its
  department up, so a course can name the identifier of a department that does not exist
  yet. In the store reached from the empty one by storing the course Orphan for
  department 1, there is no department 1; the first department created there gets
  identifier 1, one course is created for it, and \<^verbatim>\<open>getCoursesByDepartment\<close>
  returns two courses for it: Orphan, which was not created for this department, before
  the created one.
\<close>

theorem orphan_course_returned:
  "reachable orphan_store \<and>
   getDepartment orphan_store 1 = None \<and>
   dept_id (fst orphan_department) = 1 \<and>
   getDepartment (snd orphan_catalog) 1 = Some (fst orphan_department) \<and>
   map course_name (fst orphan_catalog) = [''Mechanical Engineering''] \<and>
   map course_name (getCoursesByDepartment (snd orphan_catalog) 1)
     = [''Orphan'', ''Mechanical Engineering'']"
proof -
  have "reachable orphan_store"
    unfolding orphan_store_def by (intro reachable.after reachable.initial)
  then show ?thesis
    by (simp add: orphan_catalog_def orphan_department_def orphan_store_def
        getDepartment_def getCoursesByDepartment_def createDepartment_def createCourse_def
        Let_def empty_store_def map_get_def map_values_def orphan_def mechanical_def
        engineering_def)
qed

text \<open>
  C9, as amended. On a reachable store in which no stored child names a parent
  identifier that has not been handed out yet, a department is created, then courses,
  then class intakes, then modules, each list in order. Afterwards the created
  department is stored under its identifier, which was free before, and
  \<^verbatim>\<open>getCoursesByDepartment\<close> returns for it exactly the created courses that
  name it, in the order of creation. Every created course is stored under its
  identifier, which was free before, and \<^verbatim>\<open>getClassIntakesByCourse\<close> and
  \<^verbatim>\<open>getModulesByCourse\<close> return for it exactly the created intakes and the
  created modules that name it, in the order of creation. The created children are the
  payloads, in order, each with its new identifier (and a module's absent credits as 0).
\<close>

theorem hierarchy_round_trip:
  assumes reach: "reachable s"
    and clean: "no_dangling s"
    and dept: "createDepartment dp s = (department, s0)"
    and courses: "create_all createCourse cps s0 = (cs, s1)"
    and intakes: "create_all createClassIntake ips s1 = (is, s2)"
    and modules: "create_all createModule mps s2 = (ms, s3)"
    and course: "c \<in> set cs"
  shows "getDepartment s (dept_id department) = None \<and>
         getDepartment s3 (dept_id department) = Some department \<and>
         getCoursesByDepartment s3 (dept_id department)
           = filter (\<lambda>x. course_departmentId x = dept_id department) cs \<and>
         map course_fields cs = cps \<and>
         getCourse s (course_id c) = None \<and>
         getCourse s3 (course_id c) = Some c \<and>
         getClassIntakesByCourse s3 (course_id c)
           = filter (\<lambda>i. intake_courseId i = course_id c) is \<and>
         map intake_fields is = ips \<and>
         getModulesByCourse s3 (course_id c)
           = filter (\<lambda>m. mod_courseId m = course_id c) ms \<and>
         map module_fields ms = map with_credits mps"
proof -
  note q = hierarchy_queries_append[OF reach dept courses intakes modules]
  have d: "dept_id department = departmentIdCounter s"
      "departmentsMap s0 = map_set (departmentsMap s) (departmentIdCounter s) department"
    using dept by (auto simp: createDepartment_def Let_def)
  have catalog: "catalog s0 = catalog s"
    using dept catalog_storage(2)[of dp s] by simp
  have "catalog_inv s0"
    using reachable_catalog_inv[OF reach] catalog_inv_cong[OF catalog] by simp
  then have i0: "ids_ok course_id (coursesMap s0) (courseIdCounter s0)"
    by (simp add: catalog_inv_def)
  have fresh: "courseIdCounter s \<le> course_id c"
    using q(6) course by blast
  have "getDepartment s (dept_id department) = None"
    using reachable_departments_ok[OF reach]
    by (auto simp: getDepartment_def d(1) intro: ids_ok_get_None)
  moreover have "getDepartment s3 (dept_id department) = Some department"
    using q(7) by (simp add: getDepartment_def departments_def d map_get_map_set)
  moreover have "filter (\<lambda>x. course_departmentId x = dept_id department)
      (map_values (coursesMap s)) = []"
    using clean by (auto simp: no_dangling_def d(1) filter_empty_conv)
  then have "getCoursesByDepartment s3 (dept_id department)
      = filter (\<lambda>x. course_departmentId x = dept_id department) cs"
    by (simp add: getCoursesByDepartment_def q(1))
  moreover have "map course_fields cs = cps"
    using create_all_createCourse_stored[OF i0 courses] by simp
  moreover have "getCourse s (course_id c) = None"
    using reachable_catalog_inv[OF reach] fresh
    by (auto simp: getCourse_def catalog_inv_def intro: ids_ok_get_None)
  moreover have "(course_id c, c) \<in> set (coursesMap s3)"
    using course by (simp add: q(4))
  then have "getCourse s3 (course_id c) = Some c"
    unfolding getCourse_def by (rule ids_ok_mem_get[OF q(5)])
  moreover have "filter (\<lambda>i. intake_courseId i = course_id c)
      (map_values (classIntakesMap s)) = []"
    using clean fresh by (auto simp: no_dangling_def filter_empty_conv)
  then have "getClassIntakesByCourse s3 (course_id c)
      = filter (\<lambda>i. intake_courseId i = course_id c) is"
    by (simp add: getClassIntakesByCourse_def q(2))
  moreover have "map intake_fields is = ips"
    using create_all_createClassIntake_stored[OF intakes] by simp
  moreover have "filter (\<lambda>m. mod_courseId m = course_id c)
      (map_values (modulesMap s)) = []"
    using clean fresh by (auto simp: no_dangling_def filter_empty_conv)
  then have "getModulesByCourse s3 (course_id c)
      = filter (\<lambda>m. mod_courseId m = course_id c) ms"
    by (simp add: getModulesByCourse_def q(3))
  moreover have "map module_fields ms = map with_credits mps"
    using create_all_createModule_stored[OF modules] by simp
  ultimately show ?thesis by blast
qed

lemma seeded_store_catalog:
  "departmentsMap seeded_store
     = [(1, \<lparr>dept_id = 1, dept_name = ''Engineering'', dept_code = ''ENG'',
             dept_description = None\<rparr>)]"
  "departmentIdCounter seeded_store = 2"
  "coursesMap seeded_store
     = [(1, \<lparr>course_id = 1, course_name = ''Mechanical Engineering'', course_code = ''ME101'',
             course_departmentId = 1, course_studyLevelId = 3, course_description = None\<rparr>)]"
  "courseIdCounter seeded_store = 2"
  "classIntakesMap seeded_store
     = [(1, \<lparr>intake_id = 1, intake_name = ''Intake 2023'', intake_courseId = 1,
             intake_startDate = ''2023-01-15'', intake_endDate = ''2025-12-15''\<rparr>)]"
  "classIntakeIdCounter seeded_store = 2"
  "modulesMap seeded_store
     = [(1, \<lparr>mod_id = 1, mod_name = ''Engineering Principles'', mod_code = ''ENG101'',
             mod_courseId = 1, mod_description = None, mod_credits = 0\<rparr>)]"
  "moduleIdCounter seeded_store = 2"
  by (simp_all add: seeded_store_def createDepartment_def createCourse_def
      createClassIntake_def createModule_def Let_def store_users_eq empty_store_def
      engineering_def mechanical_def intake_2023_def principles_def)

theorem hierarchy_round_trip_witness:
  "reachable seeded_store \<and>
   map course_name (getCoursesByDepartment seeded_store 1) = [''Mechanical Engineering''] \<and>
   map intake_name (getClassIntakesByCourse seeded_store 1) = [''Intake 2023''] \<and>
   map mod_name (getModulesByCourse seeded_store 1) = [''Engineering Principles''] \<and>
   getDepartment seeded_store 2 = None \<and>
   dept_id (fst catalog0) = 2 \<and>
   getDepartment (snd catalog3) 2 = Some (fst catalog0) \<and>
   map course_id (fst catalog1) = [2, 3] \<and>
   map course_fields (fst catalog1) = [accounting, electrical] \<and>
   map course_name (getCoursesByDepartment (snd catalog3) 2) = [''Accounting''] \<and>
   getCourse seeded_store 2 = None \<and>
   map_option course_name (getCourse (snd catalog3) 2) = Some ''Accounting'' \<and>
   map intake_fields (fst catalog2) = [intake_2024, accounting_intake] \<and>
   map intake_name (getClassIntakesByCourse (snd catalog3) 2) = [''Accounting 2024''] \<and>
   map mod_name (fst catalog3) = [''Bookkeeping'', ''Circuits'', ''Auditing''] \<and>
   map mod_name (getModulesByCourse (snd catalog3) 2) = [''Bookkeeping'', ''Auditing''] \<and>
   map mod_credits (getModulesByCourse (snd catalog3) 2) = [0, 10]"
proof -
  let ?accounting = "\<lparr>course_id = 2, course_name = ''Accounting'', course_code = ''AC101'',
      course_departmentId = 2, course_studyLevelId = 4, course_description = None\<rparr>"
  have reach: "reachable seeded_store"
    unfolding seeded_store_def by (intro reachable.after reachable_store_users)
  have clean: "no_dangling seeded_store"
    by (simp add: no_dangling_def seeded_store_catalog map_values_def)
  have old: "map course_name (getCoursesByDepartment seeded_store 1)
        = [''Mechanical Engineering'']"
      "map intake_name (getClassIntakesByCourse seeded_store 1) = [''Intake 2023'']"
      "map mod_name (getModulesByCourse seeded_store 1) = [''Engineering Principles'']"
    by (simp_all add: getCoursesByDepartment_def getClassIntakesByCourse_def
        getModulesByCourse_def seeded_store_catalog map_values_def)
  have d: "createDepartment business seeded_store = (fst catalog0, snd catalog0)"
    by (simp add: catalog0_def)
  have c: "create_all createCourse [accounting, electrical] (snd catalog0)
      = (fst catalog1, snd catalog1)"
    by (simp add: catalog1_def)
  have i: "create_all createClassIntake [intake_2024, accounting_intake] (snd catalog1)
      = (fst catalog2, snd catalog2)"
    by (simp add: catalog2_def)
  have m: "create_all createModule [bookkeeping, circuits, auditing] (snd catalog2)
      = (fst catalog3, snd catalog3)"
    by (simp add: catalog3_def)
  have d2: "dept_id (fst catalog0) = 2"
    by (simp add: catalog0_def createDepartment_def Let_def seeded_store_catalog)
  have cs: "fst catalog1 =
      [?accounting,
       \<lparr>course_id = 3, course_name = ''Electrical Engineering'', course_code = ''EE101'',
        course_departmentId = 1, course_studyLevelId = 3, course_description = None\<rparr>]"
    by (simp add: catalog1_def catalog0_def createDepartment_def createCourse_def Let_def
        seeded_store_catalog accounting_def electrical_def)
  have "is": "map (\<lambda>i. (intake_name i, intake_courseId i)) (fst catalog2)
      = [(''Intake 2024'', 1), (''Accounting 2024'', 2)]"
    by (simp add: catalog2_def createClassIntake_def Let_def intake_2024_def
        accounting_intake_def split_def)
  have ms: "map (\<lambda>m. (mod_name m, mod_courseId m, mod_credits m)) (fst catalog3)
      = [(''Bookkeeping'', 2, 0), (''Circuits'', 3, 10), (''Auditing'', 2, 10)]"
    by (simp add: catalog3_def createModule_def Let_def bookkeeping_def circuits_def
        auditing_def split_def)
  have is2: "map intake_name (filter (\<lambda>i. intake_courseId i = 2) (fst catalog2))
      = [''Accounting 2024'']"
    using "is" by (auto simp: map_eq_Cons_conv)
  have ms2: "map mod_name (filter (\<lambda>m. mod_courseId m = 2) (fst catalog3))
        = [''Bookkeeping'', ''Auditing'']"
      "map mod_credits (filter (\<lambda>m. mod_courseId m = 2) (fst catalog3)) = [0, 10]"
      "map mod_name (fst catalog3) = [''Bookkeeping'', ''Circuits'', ''Auditing'']"
    using ms by (auto simp: map_eq_Cons_conv)
  have mem: "?accounting \<in> set (fst catalog1)"
    by (simp add: cs)
  note round_trip = hierarchy_round_trip[OF reach clean d c i m mem]
  have "getDepartment seeded_store 2 = None"
      "getDepartment (snd catalog3) 2 = Some (fst catalog0)"
      "getCourse seeded_store 2 = None"
      "getCourse (snd catalog3) 2 = Some ?accounting"
    using round_trip by (simp_all add: d2)
  moreover have "getCoursesByDepartment (snd catalog3) 2 = [?accounting]"
    using round_trip by (simp add: d2 cs)
  moreover have "map course_fields (fst catalog1) = [accounting, electrical]"
      "map intake_fields (fst catalog2) = [intake_2024, accounting_intake]"
    using round_trip by simp_all
  moreover have "getClassIntakesByCourse (snd catalog3) 2
        = filter (\<lambda>i. intake_courseId i = 2) (fst catalog2)"
      "getModulesByCourse (snd catalog3) 2
        = filter (\<lambda>m. mod_courseId m = 2) (fst catalog3)"
    using round_trip by simp_all
  ultimately show ?thesis
    using reach old d2 is2 ms2 by (simp add: cs)
qed

section \<open>Notifications of a verification that is answered 201\<close>

lemma post_verifications_Created:
  assumes "post_verifications now usr reqBody s = (Created v, s')"
  obtains actor b assessment submission where
    "usr = Some actor" "reqBody = WellTyped b"
    "getAssessment s (iv_assessmentId b) = Some assessment"
    "getSubmission s (as_submissionId assessment) = Some submission"
    "ver_id v = verificationIdCounter s"
    "s' = logActivity (user_id actor) ''created_verification''
            [(''verificationId'', ver_id v)] now
            (verification_notifications now actor b assessment submission v
               (snd (createVerification
                  (b\<lparr>iv_verifierId := user_id actor,
                     iv_verifierType := (if role actor = ''internal_verifier''
                                         then ''internal'' else ''external'')\<rparr>) now s)))"
  using assms
  by (auto simp: post_verifications_def verifications_handler_def Let_def split_def
      getAssessment_def getSubmission_def createVerification_def
      split: option.splits body.splits if_splits)

lemma createVerification_other:
  "usersMap (snd (createVerification p now s)) = usersMap s"
  "notificationsMap (snd (createVerification p now s)) = notificationsMap s"
  "notificationIdCounter (snd (createVerification p now s)) = notificationIdCounter s"
  by (simp_all add: createVerification_def Let_def)

lemma createNotification_other:
  "usersMap (snd (createNotification p now s)) = usersMap s"
  "notificationIdCounter (snd (createNotification p now s)) = notificationIdCounter s + 1"
  by (simp_all add: createNotification_def Let_def)

text \<open>
  X1. When the route answers 201 to an internal verifier's confirmed verification on a
  reachable store, the call has created, for every user who had the role
  \<^verbatim>\<open>external_verifier\<close>, a notification of type \<^verbatim>\<open>verification\<close>
  addressed to that user and linked to the verification.
\<close>

theorem confirmed_internal_verification_notifies_external_verifiers:
  assumes reach: "reachable s"
    and call: "post_verifications now (Some actor) reqBody s = (Created v, s')"
    and internal: "role actor = ''internal_verifier''"
    and confirmed: "ver_status v = ''confirmed''"
    and verifier: "e \<in> set (getUsersByRole s ''external_verifier'')"
  shows "\<exists>n \<in> set (map_values (notificationsMap s')).
           n \<notin> set (map_values (notificationsMap s)) \<and>
           notif_userId n = user_id e \<and> notif_type n = ''verification'' \<and>
           notif_linkedItemId n = Some (ver_id v)"
  using call
proof (cases rule: post_verifications_Created)
  case (1 actor' b assessment submission)
  let ?s1 = "snd (createVerification
                  (b\<lparr>iv_verifierId := user_id actor,
                     iv_verifierType := (if role actor = ''internal_verifier''
                                         then ''internal'' else ''external'')\<rparr>) now s)"
  define s2 where "s2 = snd (createNotification
                 \<lparr>in_userId = as_assessorId assessment,
                  in_title = ''Verification Completed'',
                  in_message = ''Your assessment has been verified'',
                  in_isRead = Some False, in_type = ''verification'',
                  in_linkedItemId = Some (ver_id v)\<rparr> now ?s1)"
  define payload where "payload = (\<lambda>verifier::user.
                   \<lparr>in_userId = user_id verifier,
                    in_title = ''External Verification Required'',
                    in_message = ''An assessment is ready for external verification'',
                    in_isRead = Some False, in_type = ''verification'',
                    in_linkedItemId = Some (ver_id v)\<rparr>)"
  have actor: "actor' = actor" using 1(1) by simp
  have "v = fst (createVerification
                  (b\<lparr>iv_verifierId := user_id actor,
                     iv_verifierType := (if role actor = ''internal_verifier''
                                         then ''internal'' else ''external'')\<rparr>) now s)"
    using call 1(2,3,4) internal
    by (simp add: post_verifications_def verifications_handler_def Let_def split_def
        requireRole_def getAssessment_def getSubmission_def createVerification_def
        split: if_splits)
  then have status: "iv_status b = ''confirmed''"
    using confirmed by (simp add: createVerification_def Let_def)
  have notif: "verification_notifications now actor b assessment submission v ?s1
      = notify_each now payload (getUsersByRole s2 ''external_verifier'') s2"
    using status internal
    by (simp add: verification_notifications_def Let_def s2_def payload_def)
  have s2: "usersMap s2 = usersMap s" "notificationIdCounter s2 = notificationIdCounter s + 1"
    by (simp_all add: s2_def createNotification_other createVerification_other)
  have nm: "notificationsMap s' =
      notificationsMap (notify_each now payload (getUsersByRole s ''external_verifier'') s2)"
    using 1(6) by (simp add: actor notif notifications_logActivity getUsersByRole_def s2)
  obtain n where n: "(notif_id n, n) \<in> set (notificationsMap s')"
      "notificationIdCounter s2 \<le> notif_id n" "notif_userId n = user_id e"
      "notif_type n = ''verification''" "notif_linkedItemId n = Some (ver_id v)"
    using notify_each_creates[OF verifier, of now payload s2]
    by (auto simp: nm payload_def)
  have "ids_ok notif_id (notificationsMap s) (notificationIdCounter s)"
    using reachable_inv[OF reach] by (simp add: store_inv_def refs_inv_def)
  then have "n \<notin> set (map_values (notificationsMap s))"
    using n(2) by (auto simp: ids_ok_def map_values_def s2)
  moreover have "n \<in> set (map_values (notificationsMap s'))"
    using n(1) by (force simp: map_values_def)
  ultimately show ?thesis
    using n by blast
qed

theorem confirmed_internal_verification_notifies_external_verifiers_witness:
  "reachable store_assessed \<and> role internal_actor = ''internal_verifier'' \<and>
   external_actor \<in> set (getUsersByRole store_assessed ''external_verifier'') \<and>
   (\<exists>v. fst (post_verifications 20 (Some internal_actor) (WellTyped confirming_form)
              store_assessed) = Created v \<and> ver_status v = ''confirmed'' \<and>
      (\<exists>n \<in> set (map_values (notificationsMap
                 (snd (post_verifications 20 (Some internal_actor) (WellTyped confirming_form)
                         store_assessed)))).
          n \<notin> set (map_values (notificationsMap store_assessed)) \<and>
          notif_userId n = user_id external_actor \<and> notif_type n = ''verification'' \<and>
          notif_linkedItemId n = Some (ver_id v)))"
proof -
  let ?v = "\<lparr>ver_id = 1, ver_assessmentId = 1, ver_verifierId = 4,
     ver_verifierType = ''internal'', ver_status = ''confirmed'', ver_comments = None,
     ver_verificationDate = 20\<rparr>"
  let ?call = "post_verifications 20 (Some internal_actor) (WellTyped confirming_form)
                 store_assessed"
  have resp: "fst ?call = Created ?v"
    by (simp add: run_defs verifications_defs confirming_form_def)
  then have call: "?call = (Created ?v, snd ?call)"
    by (simp add: prod_eq_iff)
  have internal: "role internal_actor = ''internal_verifier''"
    by (simp add: internal_actor_def)
  have confirmed: "ver_status ?v = ''confirmed''" by simp
  have verifier: "external_actor \<in> set (getUsersByRole store_assessed ''external_verifier'')"
    by (simp add: run_defs)
  show ?thesis
    using confirmed_internal_verification_notifies_external_verifiers
      [OF reachable_store_assessed call internal confirmed verifier]
      reachable_store_assessed internal verifier resp
    by auto
qed

text \<open>
  X2. When the route answers 201 to an external verifier's confirmed verification on a
  reachable store, the call has created exactly one notification, the one for the
  assessor of the verified assessment: there is no further fan-out.
\<close>

theorem confirmed_external_verification_notifies_assessor_only:
  assumes reach: "reachable s"
    and call: "post_verifications now (Some actor) reqBody s = (Created v, s')"
    and external: "role actor = ''external_verifier''"
    and confirmed: "ver_status v = ''confirmed''"
  shows "\<exists>n assessment. getAssessment s (ver_assessmentId v) = Some assessment \<and>
           map_values (notificationsMap s') = map_values (notificationsMap s) @ [n] \<and>
           notif_userId n = as_assessorId assessment \<and>
           notif_linkedItemId n = Some (ver_id v)"
  using call
proof (cases rule: post_verifications_Created)
  case (1 actor' b assessment submission)
  let ?s1 = "snd (createVerification
                  (b\<lparr>iv_verifierId := user_id actor,
                     iv_verifierType := (if role actor = ''internal_verifier''
                                         then ''internal'' else ''external'')\<rparr>) now s)"
  let ?p = "\<lparr>in_userId = as_assessorId assessment,
                  in_title = ''Verification Completed'',
                  in_message = ''Your assessment has been verified'',
                  in_isRead = Some False, in_type = ''verification'',
                  in_linkedItemId = Some (ver_id v)\<rparr>"
  have actor: "actor' = actor" using 1(1) by simp
  have v: "v = fst (createVerification
                  (b\<lparr>iv_verifierId := user_id actor,
                     iv_verifierType := (if role actor = ''internal_verifier''
                                         then ''internal'' else ''external'')\<rparr>) now s)"
    using call 1(2,3,4) external
    by (simp add: post_verifications_def verifications_handler_def Let_def split_def
        requireRole_def getAssessment_def getSubmission_def createVerification_def
        split: if_splits)
  then have status: "iv_status b = ''confirmed''" "ver_assessmentId v = iv_assessmentId b"
    using confirmed by (simp_all add: createVerification_def Let_def)
  have notif: "verification_notifications now actor b assessment submission v ?s1
      = snd (createNotification ?p now ?s1)"
    using status external by (simp add: verification_notifications_def Let_def)
  have ids: "ids_ok notif_id (notificationsMap s) (notificationIdCounter s)"
    using reachable_inv[OF reach] by (simp add: store_inv_def refs_inv_def)
  have "notificationsMap s' = notificationsMap s @
      [(notificationIdCounter s, fst (createNotification ?p now ?s1))]"
    using 1(6) ids
    by (simp add: actor notif notifications_logActivity createNotification_def Let_def
        createVerification_other map_set_fresh ids_ok_fresh)
  then show ?thesis
    using 1(3) status(2)
    by (intro exI[of _ "fst (createNotification ?p now ?s1)"] exI[of _ assessment])
       (simp add: map_values_def createNotification_def Let_def)
qed

theorem confirmed_external_verification_notifies_assessor_only_witness:
  "reachable store_assessed \<and> role external_actor = ''external_verifier'' \<and>
   (\<exists>v n. fst (post_verifications 20 (Some external_actor) (WellTyped confirming_form)
              store_assessed) = Created v \<and> ver_status v = ''confirmed'' \<and>
      map_values (notificationsMap
        (snd (post_verifications 20 (Some external_actor) (WellTyped confirming_form)
                store_assessed)))
        = map_values (notificationsMap store_assessed) @ [n] \<and>
      notif_userId n = user_id assessor_actor)"
proof -
  let ?v = "\<lparr>ver_id = 1, ver_assessmentId = 1, ver_verifierId = 5,
     ver_verifierType = ''external'', ver_status = ''confirmed'', ver_comments = None,
     ver_verificationDate = 20\<rparr>"
  let ?call = "post_verifications 20 (Some external_actor) (WellTyped confirming_form)
                 store_assessed"
  have resp: "fst ?call = Created ?v"
    by (simp add: run_defs verifications_defs confirming_form_def)
  then have call: "?call = (Created ?v, snd ?call)"
    by (simp add: prod_eq_iff)
  have external: "role external_actor = ''external_verifier''"
    by (simp add: external_actor_def)
  have confirmed: "ver_status ?v = ''confirmed''" by simp
  have assessment: "getAssessment store_assessed 1 = Some first_assessment"
    by (simp add: run_defs)
  obtain n where "map_values (notificationsMap (snd ?call))
        = map_values (notificationsMap store_assessed) @ [n]"
      "notif_userId n = as_assessorId first_assessment"
    using confirmed_external_verification_notifies_assessor_only
      [OF reachable_store_assessed call external confirmed] assessment
    by auto
  then show ?thesis
    using reachable_store_assessed external resp
    by (auto simp: first_assessment_def assessor_actor_def)
qed

end
